theory Spec2Isabelle
  imports Main "HOL-Library.Word" "HOL-Library.Signed_Division"
begin

unbundle bit_operations_syntax

section \<open>The disk image and the system calls of block.c\<close>

text \<open>
  \<^verbatim>\<open>block.h\<close>: \<^verbatim>\<open>#define BLOCK_SIZE 4096\<close>. A block buffer
  (\<^verbatim>\<open>unsigned char block[BLOCK_SIZE]\<close>) is a list of bytes; the C arrays are
  exactly \<open>BLOCK_SIZE\<close> long, which the theorems below state as a hypothesis on the
  buffer handed in.
\<close>

type_synonym byte = "8 word"
type_synonym block = "byte list"

definition BLOCK_SIZE :: nat where
  "BLOCK_SIZE = 4096"

text \<open>
  A system call that was issued, with its arguments and the value it returned (the
  value the C code is free to look at): \<open>Lseek offset result\<close>, \<open>Read count result\<close>,
  \<open>Write count result\<close>. The log is not part of the program; it records what the
  program did to the descriptor, so that "no write happened" can be stated.
\<close>

datatype syscall = Lseek int int | Read nat int | Write nat int

text \<open>
  Modelled from the spec: \<^verbatim>\<open>struct inode\<close> of inode.h, which is not among the
  sources. The spec, 3: size (4 bytes), owner id (2 bytes), permissions, flags and link
  count (1 byte each), 16 block pointers (2 bytes each), and in core a reference count
  and the inode number. The comment of inode.c gives the declaration (lines 57 to 67;
  \<open>size\<close> is \<open>size_field\<close> here, the name \<open>size\<close> being taken):
  \<^verbatim>\<open>struct inode { unsigned int size; unsigned short owner_id; unsigned char permissions;
  unsigned char flags; unsigned char link_count; unsigned short block_ptr[INODE_PTR_COUNT];
  unsigned int ref_count; unsigned int inode_num; };\<close>
\<close>

record inode =
  size_field :: "32 word"
  owner_id :: "16 word"
  permissions :: byte
  flags :: byte
  link_count :: byte
  block_ptr :: "16 word list"
  ref_count :: "32 word"
  inode_num :: "32 word"

text \<open>
  The process-wide state: the file behind the global descriptor \<^verbatim>\<open>image_fd\<close>
  (whether the descriptor is open at all, the bytes of the file, the file position), the
  log of system calls, and the array \<^verbatim>\<open>incore\<close> of in-core inodes (modelled from
  the spec, 3: "a fixed-capacity collection of inode slots"; the comment of inode.c,
  line 81, declares it), which block.c and \<^verbatim>\<open>ialloc\<close> never mention.
  The file is a regular file opened for reading and writing. The model has no device
  faults: a transfer fails when the descriptor is not open and a read is short when the
  file ends before the requested count.
\<close>

record world =
  image_open :: bool
  image_bytes :: "byte list"
  image_pos :: nat
  io_log :: "syscall list"
  incore :: "inode list"

text \<open>
  \<^verbatim>\<open>lseek(fd, offset, SEEK_SET)\<close>: returns \<open>-1\<close> and leaves the position alone on a bad
  descriptor or a negative offset; otherwise sets the position (also beyond the end of
  the file) and returns it.
\<close>

definition lseek :: "world \<Rightarrow> int \<Rightarrow> int \<times> world" where
  "lseek w offset =
     (if \<not> image_open w \<or> offset < 0
      then (-1, w\<lparr>io_log := io_log w @ [Lseek offset (-1)]\<rparr>)
      else (offset, w\<lparr>image_pos := nat offset, io_log := io_log w @ [Lseek offset offset]\<rparr>))"

text \<open>
  \<^verbatim>\<open>read(fd, buf, count)\<close>: on a bad descriptor returns \<open>-1\<close> and leaves the buffer
  alone. Otherwise it copies the bytes from the position up to \<open>count\<close> bytes or the end
  of the file into the front of the buffer, advances the position and returns the number
  of bytes copied; the rest of the buffer keeps what it held. The buffer has room for
  \<open>count\<close> bytes.
\<close>

definition sys_read :: "world \<Rightarrow> block \<Rightarrow> nat \<Rightarrow> int \<times> block \<times> world" where
  "sys_read w buf count =
     (if \<not> image_open w
      then (-1, buf, w\<lparr>io_log := io_log w @ [Read count (-1)]\<rparr>)
      else
        (let got = take count (drop (image_pos w) (image_bytes w));
             n = length got
         in (int n, got @ drop n buf,
             w\<lparr>image_pos := image_pos w + n, io_log := io_log w @ [Read count (int n)]\<rparr>)))"

text \<open>
  \<^verbatim>\<open>write(fd, buf, count)\<close>: on a bad descriptor returns \<open>-1\<close> and changes nothing.
  Otherwise it stores the first \<open>count\<close> bytes of the buffer at the position (a gap
  between the end of the file and the position reads as zero bytes), advances the
  position and returns the number of bytes stored.
\<close>

definition sys_write :: "world \<Rightarrow> block \<Rightarrow> nat \<Rightarrow> int \<times> world" where
  "sys_write w buf count =
     (if \<not> image_open w
      then (-1, w\<lparr>io_log := io_log w @ [Write count (-1)]\<rparr>)
      else
        (let data = take count buf;
             n = length data;
             old = image_bytes w @ replicate (image_pos w - length (image_bytes w)) 0
         in (int n,
             w\<lparr>image_bytes := take (image_pos w) old @ data @ drop (image_pos w + n) old,
               image_pos := image_pos w + n,
               io_log := io_log w @ [Write count (int n)]\<rparr>)))"

section \<open>block.c\<close>

text \<open>
  The value that a C \<open>int\<close> of 32 bits holds for the integer \<open>x\<close>. block.c computes
  \<^verbatim>\<open>int offset = block_num * BLOCK_SIZE\<close> in such an \<open>int\<close>: where the product does
  not fit, C leaves it undefined and the compiled program wraps around, which is what
  the model writes out.
\<close>

definition int32 :: "int \<Rightarrow> int" where
  "int32 x = sint (word_of_int x :: 32 word)"

text \<open>
  \<^verbatim>\<open>unsigned char *bread(int block_num, unsigned char *block)\<close>: the results of
  \<^verbatim>\<open>lseek\<close> and \<^verbatim>\<open>read\<close> are discarded and the caller's buffer is returned. The
  model returns the contents of that buffer with the new state.
\<close>

definition bread :: "int \<Rightarrow> block \<Rightarrow> world \<Rightarrow> block \<times> world" where
  "bread block_num block w =
     (let offset = int32 (block_num * int BLOCK_SIZE);
          (r1, w1) = lseek w offset;
          (r2, block', w2) = sys_read w1 block BLOCK_SIZE
      in (block', w2))"

text \<open>\<^verbatim>\<open>void bwrite(int block_num, unsigned char *block)\<close>: returns nothing.\<close>

definition bwrite :: "int \<Rightarrow> block \<Rightarrow> world \<Rightarrow> world" where
  "bwrite block_num block w =
     (let offset = int32 (block_num * int BLOCK_SIZE);
          (r1, w1) = lseek w offset;
          (r2, w2) = sys_write w1 block BLOCK_SIZE
      in w2)"

section \<open>The bitmap helpers that ialloc calls\<close>

text \<open>
  Modelled from the spec: \<^verbatim>\<open>find_free\<close> of free.c, which is not among the sources
  (inode.c includes \<^verbatim>\<open>free.h\<close> and calls it). The spec, 4.2: it "scans bits in
  increasing order (lowest bit of lowest byte first) and returns the index of the first
  bit equal to 0, or a not-found signal if all bits are 1". \<^verbatim>\<open>ialloc\<close> receives the
  result in an \<open>int\<close> and tests it against \<open>-1\<close>, which is the signal taken here. Bit
  \<open>i\<close> of the block is bit \<open>i mod 8\<close> of byte \<open>i div 8\<close>; a block has
  \<open>BLOCK_SIZE * 8\<close> bits.
\<close>

function find_free_from :: "nat \<Rightarrow> block \<Rightarrow> int" where
  "find_free_from i block =
     (if BLOCK_SIZE * 8 \<le> i then -1
      else if \<not> bit (block ! (i div 8)) (i mod 8) then int i
      else find_free_from (Suc i) block)"
  by pat_completeness auto
termination
  by (relation "measure (\<lambda>(i, block). BLOCK_SIZE * 8 - i)") auto

declare find_free_from.simps [simp del]

definition find_free :: "block \<Rightarrow> int" where
  "find_free block = find_free_from 0 block"

text \<open>
  Modelled from the spec: \<^verbatim>\<open>set_free\<close> of free.c, which is not among the sources;
  \<^verbatim>\<open>ialloc\<close> calls it as \<^verbatim>\<open>set_free(inode_map, low_free_bit, 1)\<close>. The spec, 4.2:
  it "mutates the bit at \<open>index\<close> in place (no bounds check beyond the block's bit
  capacity, caller-guaranteed valid index)"; 1 is allocated, 0 is free.
\<close>

definition set_free :: "block \<Rightarrow> int \<Rightarrow> int \<Rightarrow> block" where
  "set_free block num v =
     (let byte_num = nat num div 8;
          bit_num = nat num mod 8
      in block[byte_num :=
           (if v \<noteq> 0 then set_bit bit_num (block ! byte_num)
            else unset_bit bit_num (block ! byte_num))])"

section \<open>inode.c: ialloc\<close>

text \<open>
  Modelled from the spec: \<^verbatim>\<open>FREE_INODE_BLOCK_NUM\<close> of inode.h, which is not among
  the sources. The spec, 3: "Block 1 (a reserved constant) holds the inode free-bitmap".
\<close>

definition FREE_INODE_BLOCK_NUM :: int where
  "FREE_INODE_BLOCK_NUM = 1"

text \<open>
  \<^verbatim>\<open>int ialloc(void)\<close>, inode.c lines 6 to 15. The local array
  \<^verbatim>\<open>unsigned char inode_map[BLOCK_SIZE]\<close> is not initialised: what it holds when
  \<^verbatim>\<open>bread\<close> is called is the first argument of the model.
\<close>

definition ialloc :: "block \<Rightarrow> world \<Rightarrow> int \<times> world" where
  "ialloc inode_map w =
     (let (inode_map1, w1) = bread FREE_INODE_BLOCK_NUM inode_map w;
          low_free_bit = find_free inode_map1
      in if low_free_bit \<noteq> -1
         then (low_free_bit,
               bwrite FREE_INODE_BLOCK_NUM (set_free inode_map1 low_free_bit 1) w1)
         else (low_free_bit, w1))"

text \<open>Successive calls of \<^verbatim>\<open>ialloc\<close>, one per buffer of the list, and what each returned.\<close>

fun ialloc_calls :: "block list \<Rightarrow> world \<Rightarrow> int list \<times> world" where
  "ialloc_calls [] w = ([], w)"
| "ialloc_calls (inode_map # rest) w =
     (let (k, w1) = ialloc inode_map w;
          (ks, w2) = ialloc_calls rest w1
      in (k # ks, w2))"

section \<open>inode.c: what the file describes but does not contain\<close>

text \<open>
  inode.c holds the code of \<^verbatim>\<open>ialloc\<close> only. From line 17 on it is a comment that
  describes the constants, the location of an inode, the in-core array,
  \<^verbatim>\<open>find_incore_free\<close>, \<^verbatim>\<open>find_incore\<close>, \<^verbatim>\<open>read_inode\<close>, \<^verbatim>\<open>write_inode\<close>,
  \<^verbatim>\<open>iget\<close> and \<^verbatim>\<open>iput\<close>. The definitions of this section follow the spec and
  that description; a pointer into the in-core array is the index of the slot, and
  \<^verbatim>\<open>NULL\<close> is \<open>None\<close>.
\<close>

text \<open>
  Modelled from the spec: \<^verbatim>\<open>INODE_SIZE\<close> of inode.h, which is not among the
  sources. The spec, 6: "Inode record size: 64 bytes" (inode.c, line 25, the same).
\<close>

definition INODE_SIZE :: nat where
  "INODE_SIZE = 64"

text \<open>
  Modelled from the spec: \<^verbatim>\<open>INODE_FIRST_BLOCK\<close> of inode.h, which is not among the
  sources. The spec, 3: inodes are packed "into dedicated blocks starting at a known
  first block number"; the number, 3, is the one in the comment of inode.c, line 26.
\<close>

definition INODE_FIRST_BLOCK :: int where
  "INODE_FIRST_BLOCK = 3"

text \<open>
  Modelled from the spec: \<^verbatim>\<open>INODES_PER_BLOCK\<close> of inode.h, which is not among the
  sources. The spec, 6: "inodes per block = block size / 64" (inode.c, line 28:
  \<^verbatim>\<open>(BLOCK_SIZE / INODE_SIZE)\<close>).
\<close>

definition INODES_PER_BLOCK :: nat where
  "INODES_PER_BLOCK = BLOCK_SIZE div INODE_SIZE"

text \<open>
  Modelled from the spec: \<^verbatim>\<open>INODE_PTR_COUNT\<close> of inode.h, which is not among the
  sources. The spec, 3: "16 block-pointer slots" (inode.c, line 55, the same).
\<close>

definition INODE_PTR_COUNT :: nat where
  "INODE_PTR_COUNT = 16"

text \<open>
  Modelled from the spec: \<^verbatim>\<open>MAX_SYS_OPEN_FILES\<close> of inode.h, which is not among the
  sources. The spec, 3: the capacity of the in-core cache is the "max simultaneously
  open inodes system-wide"; the number, 64, is the one in the comment of inode.c,
  line 78.
\<close>

definition MAX_SYS_OPEN_FILES :: nat where
  "MAX_SYS_OPEN_FILES = 64"

text \<open>
  Modelled from the spec: \<open>locate\<close>, the computation that \<^verbatim>\<open>read_inode\<close> and
  \<^verbatim>\<open>write_inode\<close> start with, which inode.c only describes (lines 30 to 40:
  \<^verbatim>\<open>int block_num = inode_num / INODES_PER_BLOCK + INODE_FIRST_BLOCK;\<close>
  \<^verbatim>\<open>int block_offset = inode_num % INODES_PER_BLOCK;\<close>
  \<^verbatim>\<open>int block_offset_bytes = block_offset * INODE_SIZE;\<close>). The operands are C
  \<open>int\<close>s: \<open>/\<close> and \<open>%\<close> truncate towards zero.
\<close>

definition locate :: "int \<Rightarrow> int \<times> int" where
  "locate inum =
     (let block_num = inum sdiv int INODES_PER_BLOCK + INODE_FIRST_BLOCK;
          block_offset = inum smod int INODES_PER_BLOCK;
          block_offset_bytes = block_offset * int INODE_SIZE
      in (block_num, block_offset_bytes))"

text \<open>
  The byte accessors of pack.c, which is not among the sources, are the six definitions
  that follow. The spec, 6: "read/write fixed-width unsigned integers (8/16/32-bit) at a
  given byte offset". The spec does not give the byte order; the most significant byte
  comes first here. An accessor is given the buffer and the offset in it.
\<close>

text \<open>Modelled from the spec: \<^verbatim>\<open>read_u8\<close> of pack.c, the byte at the offset.\<close>

definition read_u8 :: "block \<Rightarrow> nat \<Rightarrow> 8 word" where
  "read_u8 block off = block ! off"

text \<open>
  Modelled from the spec: \<^verbatim>\<open>read_u16\<close> of pack.c, the 16-bit unsigned integer in the
  two bytes at the offset.
\<close>

definition read_u16 :: "block \<Rightarrow> nat \<Rightarrow> 16 word" where
  "read_u16 block off = push_bit 8 (ucast (block ! off)) OR ucast (block ! (off + 1))"

text \<open>
  Modelled from the spec: \<^verbatim>\<open>read_u32\<close> of pack.c, the 32-bit unsigned integer in the
  four bytes at the offset.
\<close>

definition read_u32 :: "block \<Rightarrow> nat \<Rightarrow> 32 word" where
  "read_u32 block off =
     push_bit 24 (ucast (block ! off)) OR push_bit 16 (ucast (block ! (off + 1))) OR
     push_bit 8 (ucast (block ! (off + 2))) OR ucast (block ! (off + 3))"

text \<open>Modelled from the spec: \<^verbatim>\<open>write_u8\<close> of pack.c, which stores one byte.\<close>

definition write_u8 :: "block \<Rightarrow> nat \<Rightarrow> 8 word \<Rightarrow> block" where
  "write_u8 block off v = block[off := v]"

text \<open>
  Modelled from the spec: \<^verbatim>\<open>write_u16\<close> of pack.c, which stores a 16-bit unsigned
  integer in the two bytes at the offset.
\<close>

definition write_u16 :: "block \<Rightarrow> nat \<Rightarrow> 16 word \<Rightarrow> block" where
  "write_u16 block off v = block[off := ucast (drop_bit 8 v), off + 1 := ucast v]"

text \<open>
  Modelled from the spec: \<^verbatim>\<open>write_u32\<close> of pack.c, which stores a 32-bit unsigned
  integer in the four bytes at the offset.
\<close>

definition write_u32 :: "block \<Rightarrow> nat \<Rightarrow> 32 word \<Rightarrow> block" where
  "write_u32 block off v =
     block[off := ucast (drop_bit 24 v), off + 1 := ucast (drop_bit 16 v),
           off + 2 := ucast (drop_bit 8 v), off + 3 := ucast v]"

text \<open>
  Modelled from the spec: \<open>decode\<close>, the unpacking inside \<^verbatim>\<open>read_inode\<close>, which
  inode.c only describes. The spec, 4.3 and 6: size, 4 bytes at offset 0; owner id,
  2 bytes at 4; permissions, 1 byte at 6; flags, 1 byte at 7; link count, 1 byte at 8;
  then 16 block pointers of 2 bytes each from offset 9 on. \<open>decode\<close> fills the on-disk
  fields of the record it is given (\<^verbatim>\<open>read_inode\<close> is handed the
  \<^verbatim>\<open>struct inode\<close> to fill).
\<close>

definition decode :: "block \<Rightarrow> nat \<Rightarrow> inode \<Rightarrow> inode" where
  "decode block off ino =
     ino\<lparr>size_field := read_u32 block off,
         owner_id := read_u16 block (off + 4),
         permissions := read_u8 block (off + 6),
         flags := read_u8 block (off + 7),
         link_count := read_u8 block (off + 8),
         block_ptr := map (\<lambda>i. read_u16 block (off + 9 + 2 * i)) [0..<INODE_PTR_COUNT]\<rparr>"

text \<open>
  Modelled from the spec: \<open>encode\<close>, the packing inside \<^verbatim>\<open>write_inode\<close>, which
  inode.c only describes. The spec, 4.3: it "writes the same fields back", at the same
  offsets, and no other field.
\<close>

definition encode :: "block \<Rightarrow> nat \<Rightarrow> inode \<Rightarrow> block" where
  "encode block off ino =
     (let b1 = write_u32 block off (size_field ino);
          b2 = write_u16 b1 (off + 4) (owner_id ino);
          b3 = write_u8 b2 (off + 6) (permissions ino);
          b4 = write_u8 b3 (off + 7) (flags ino);
          b5 = write_u8 b4 (off + 8) (link_count ino)
      in fold (\<lambda>i b. write_u16 b (off + 9 + 2 * i) (block_ptr ino ! i))
           [0..<INODE_PTR_COUNT] b5)"

text \<open>
  Modelled from the spec: \<^verbatim>\<open>read_inode\<close>, which inode.c only describes (lines 119
  to 123). The spec, 4.5: "locate block+offset via InodeCodec, BlockStore.read that
  block, decode at the offset". The block store is \<^verbatim>\<open>bread\<close> of block.c; the first
  argument is what the block buffer holds before the read.
\<close>

definition read_inode :: "block \<Rightarrow> inode \<Rightarrow> int \<Rightarrow> world \<Rightarrow> inode \<times> world" where
  "read_inode buf ino inum w =
     (let (block_num, off) = locate inum;
          (block, w1) = bread block_num buf w
      in (decode block (nat off) ino, w1))"

text \<open>
  Modelled from the spec: \<^verbatim>\<open>write_inode\<close>, which inode.c only describes (lines 125
  to 129). The spec, 4.5: "locate block+offset for record's inode number,
  BlockStore.read the target block, encode the record's fields into the offset,
  BlockStore.write the modified block back". The block store is \<^verbatim>\<open>bread\<close> and
  \<^verbatim>\<open>bwrite\<close> of block.c; the first argument is what the block buffer holds before
  the read.
\<close>

definition write_inode :: "block \<Rightarrow> inode \<Rightarrow> world \<Rightarrow> world" where
  "write_inode buf ino w =
     (let (block_num, off) = locate (uint (inode_num ino));
          (block, w1) = bread block_num buf w
      in bwrite block_num (encode block (nat off) ino) w1)"

text \<open>
  Modelled from the spec: the linear scan of the slot pool that \<^verbatim>\<open>find_incore_free\<close>
  and \<^verbatim>\<open>find_incore\<close> share (the spec, 4.4: "linear scan ... for the first slot"):
  the index of the first slot that satisfies the test, counted from \<open>i\<close>.
\<close>

fun scan_incore :: "(inode \<Rightarrow> bool) \<Rightarrow> inode list \<Rightarrow> nat \<Rightarrow> nat option" where
  "scan_incore P [] i = None"
| "scan_incore P (ino # rest) i = (if P ino then Some i else scan_incore P rest (Suc i))"

text \<open>
  Modelled from the spec: \<^verbatim>\<open>find_incore_free\<close>, which inode.c only describes (lines
  88 to 98). The spec, 4.4: a "linear scan of the fixed-capacity slot pool for the first
  slot whose reference count is 0".
\<close>

definition find_incore_free :: "world \<Rightarrow> nat option" where
  "find_incore_free w = scan_incore (\<lambda>ino. ref_count ino = 0) (incore w) 0"

text \<open>
  Modelled from the spec: \<^verbatim>\<open>find_incore\<close>, which inode.c only describes (lines 100
  to 108). The spec, 4.4: a "linear scan for the first slot with reference count > 0
  AND stored inode number equal to \<open>inodeNum\<close>".
\<close>

definition find_incore :: "world \<Rightarrow> 32 word \<Rightarrow> nat option" where
  "find_incore w num =
     scan_incore (\<lambda>ino. ref_count ino \<noteq> 0 \<and> inode_num ino = num) (incore w) 0"

text \<open>
  Modelled from the spec: \<^verbatim>\<open>iget\<close>, which inode.c only describes (lines 142 to 158).
  The spec, 4.5: "1. findByNumber(inodeNum). If found, increment its reference count and
  return its handle. 2. Else findFree(). If none available, return the not-found signal.
  3. readInode(inodeNum) into that slot's storage. 4. Set the slot's reference count to 1
  and its stored inode number to inodeNum. 5. Return the handle."
\<close>

definition iget :: "block \<Rightarrow> int \<Rightarrow> world \<Rightarrow> nat option \<times> world" where
  "iget buf inum w =
     (case find_incore w (word_of_int inum) of
        Some h \<Rightarrow>
          (Some h,
           w\<lparr>incore := (incore w)[h := (incore w ! h)\<lparr>ref_count := ref_count (incore w ! h) + 1\<rparr>]\<rparr>)
      | None \<Rightarrow>
          (case find_incore_free w of
             None \<Rightarrow> (None, w)
           | Some h \<Rightarrow>
               (let (ino1, w1) = read_inode buf (incore w ! h) inum w;
                    ino2 = ino1\<lparr>ref_count := 1, inode_num := word_of_int inum\<rparr>
                in (Some h, w1\<lparr>incore := (incore w1)[h := ino2]\<rparr>))))"

text \<open>
  Modelled from the spec: \<^verbatim>\<open>iput\<close>, which inode.c only describes (lines 163 to 170).
  The spec, 4.5: "1. If the slot's reference count is already 0, this is a no-op.
  2. Decrement the reference count. 3. If it reached 0, writeInode the slot's current
  record to disk."
\<close>

definition iput :: "block \<Rightarrow> nat \<Rightarrow> world \<Rightarrow> world" where
  "iput buf h w =
     (let ino = incore w ! h
      in if ref_count ino = 0 then w
         else
           (let ino1 = ino\<lparr>ref_count := ref_count ino - 1\<rparr>;
                w1 = w\<lparr>incore := (incore w)[h := ino1]\<rparr>
            in if ref_count ino1 = 0 then write_inode buf ino1 w1 else w1))"

section \<open>Notions the statements use\<close>

text \<open>Bit \<open>i\<close> of a bitmap block is 1: inode number \<open>i\<close> is allocated.\<close>

definition allocated :: "block \<Rightarrow> nat \<Rightarrow> bool" where
  "allocated block i = bit (block ! (i div 8)) (i mod 8)"

text \<open>Block \<open>b\<close> of the image, and the image outside of block \<open>b\<close>.\<close>

definition block_of :: "world \<Rightarrow> nat \<Rightarrow> block" where
  "block_of w b = take BLOCK_SIZE (drop (b * BLOCK_SIZE) (image_bytes w))"

definition outside_block :: "world \<Rightarrow> nat \<Rightarrow> byte list \<times> byte list" where
  "outside_block w b =
     (take (b * BLOCK_SIZE) (image_bytes w), drop (Suc b * BLOCK_SIZE) (image_bytes w))"

text \<open>The inode free-bitmap block of the image.\<close>

definition inode_bitmap :: "world \<Rightarrow> block" where
  "inode_bitmap w = block_of w (nat FREE_INODE_BLOCK_NUM)"

text \<open>
  The image is open and holds the whole of the bitmap block (a formatted image has
  1024 blocks, mkfs.h).
\<close>

definition image_ok :: "world \<Rightarrow> bool" where
  "image_ok w \<longleftrightarrow>
     image_open w \<and> (nat FREE_INODE_BLOCK_NUM + 1) * BLOCK_SIZE \<le> length (image_bytes w)"

text \<open>The loop of \<open>encode\<close> over the block pointers, after \<open>k\<close> rounds.\<close>

definition write_ptrs :: "nat \<Rightarrow> 16 word list \<Rightarrow> nat \<Rightarrow> block \<Rightarrow> block" where
  "write_ptrs off ps k b = fold (\<lambda>i b. write_u16 b (off + 9 + 2 * i) (ps ! i)) [0..<k] b"

text \<open>The system calls issued between two states.\<close>

definition calls_since :: "world \<Rightarrow> world \<Rightarrow> syscall list" where
  "calls_since w w' = drop (length (io_log w)) (io_log w')"

section \<open>Concrete images\<close>

text \<open>\<^verbatim>\<open>mkfs.h\<close>: \<^verbatim>\<open>#define NUM_OF_BLOCKS 1024\<close>.\<close>

definition NUM_OF_BLOCKS :: nat where
  "NUM_OF_BLOCKS = 1024"

text \<open>
  Blocks and states on which the statements below are run: a block of zero bytes and a
  block with every bit set; an open image with the given bytes, nothing logged and no
  in-core slot; an image of 1024 zero blocks (no inode allocated) and one whose bitmap
  block is full; an image file of no bytes at all and a descriptor that is not open.
\<close>

definition zero_block :: block where
  "zero_block = replicate BLOCK_SIZE 0"

definition ones_block :: block where
  "ones_block = replicate BLOCK_SIZE 255"

definition image_of :: "byte list \<Rightarrow> world" where
  "image_of bytes =
     \<lparr>image_open = True, image_bytes = bytes, image_pos = 0, io_log = [], incore = []\<rparr>"

definition fresh_image :: world where
  "fresh_image = image_of (replicate (NUM_OF_BLOCKS * BLOCK_SIZE) 0)"

definition full_image :: world where
  "full_image =
     image_of (zero_block @ ones_block @ replicate ((NUM_OF_BLOCKS - 2) * BLOCK_SIZE) 0)"

definition empty_image :: world where
  "empty_image = image_of []"

definition closed_image :: world where
  "closed_image = fresh_image\<lparr>image_open := False\<rparr>"

text \<open>
  In-core inodes and in-core arrays of \<open>MAX_SYS_OPEN_FILES\<close> slots: all slots free;
  slot 0 holding inode 5 once, the others free; every slot held, slot \<open>i\<close> by inode
  \<open>i\<close>.
\<close>

definition blank_inode :: inode where
  "blank_inode =
     \<lparr>size_field = 0, owner_id = 0, permissions = 0, flags = 0, link_count = 0,
      block_ptr = replicate INODE_PTR_COUNT 0, ref_count = 0, inode_num = 0\<rparr>"

definition sample_inode :: inode where
  "sample_inode =
     \<lparr>size_field = 0x01020304, owner_id = 0x0506, permissions = 7, flags = 2, link_count = 1,
      block_ptr = [10, 11, 12, 13, 14, 15, 16, 17, 18, 19, 20, 21, 22, 23, 24, 0xFFFE],
      ref_count = 3, inode_num = 70\<rparr>"

definition fresh_cache :: world where
  "fresh_cache = fresh_image\<lparr>incore := replicate MAX_SYS_OPEN_FILES blank_inode\<rparr>"

definition held_cache :: world where
  "held_cache =
     fresh_image\<lparr>incore := blank_inode\<lparr>ref_count := 1, inode_num := 5\<rparr> #
                              replicate (MAX_SYS_OPEN_FILES - 1) blank_inode\<rparr>"

definition full_cache :: world where
  "full_cache =
     fresh_image\<lparr>incore := map (\<lambda>i. blank_inode\<lparr>ref_count := 1, inode_num := of_nat i\<rparr>)
                              [0..<MAX_SYS_OPEN_FILES]\<rparr>"

section \<open>Facts about the concrete images\<close>

lemma image_ok_fresh: "image_ok fresh_image"
  by (simp add: image_ok_def fresh_image_def image_of_def NUM_OF_BLOCKS_def
      FREE_INODE_BLOCK_NUM_def BLOCK_SIZE_def)

lemma image_ok_full: "image_ok full_image"
  by (simp add: image_ok_def full_image_def image_of_def zero_block_def ones_block_def
      NUM_OF_BLOCKS_def FREE_INODE_BLOCK_NUM_def BLOCK_SIZE_def)

lemma inode_bitmap_fresh: "inode_bitmap fresh_image = zero_block"
  by (simp add: inode_bitmap_def block_of_def fresh_image_def image_of_def zero_block_def
      NUM_OF_BLOCKS_def FREE_INODE_BLOCK_NUM_def BLOCK_SIZE_def)

lemma inode_bitmap_full: "inode_bitmap full_image = ones_block"
  by (simp add: inode_bitmap_def block_of_def full_image_def image_of_def zero_block_def
      ones_block_def NUM_OF_BLOCKS_def FREE_INODE_BLOCK_NUM_def BLOCK_SIZE_def)

lemma length_zero_block: "length zero_block = BLOCK_SIZE"
  by (simp add: zero_block_def)

lemma bit_255: "n < 8 \<Longrightarrow> bit (255 :: byte) n"
proof -
  have "(255 :: byte) = - 1" by simp
  then show "n < 8 \<Longrightarrow> bit (255 :: byte) n" by (simp only: bit_minus_1_iff) simp
qed

lemma allocated_ones: "j < BLOCK_SIZE * 8 \<Longrightarrow> allocated ones_block j"
proof -
  assume "j < BLOCK_SIZE * 8"
  then have "j div 8 < BLOCK_SIZE" by (simp add: BLOCK_SIZE_def)
  then have "ones_block ! (j div 8) = 255" by (simp add: ones_block_def)
  moreover have "j mod 8 < 8" by simp
  ultimately show ?thesis by (simp only: allocated_def bit_255)
qed

lemma not_allocated_zero: "\<not> allocated zero_block 0"
  by (simp add: allocated_def zero_block_def BLOCK_SIZE_def)


section \<open>Properties of ialloc\<close>

lemma bread_ok:
  assumes "image_ok w" "length buf = BLOCK_SIZE"
  shows "bread FREE_INODE_BLOCK_NUM buf w =
     (inode_bitmap w,
      w\<lparr>image_pos := 2 * BLOCK_SIZE,
        io_log := io_log w @ [Lseek 4096 4096, Read 4096 4096]\<rparr>)"
proof -
  have m: "min (length (image_bytes w) - 4096) 4096 = 4096"
    using assms(1) by (auto simp add: image_ok_def FREE_INODE_BLOCK_NUM_def BLOCK_SIZE_def)
  show ?thesis
    using assms
    by (simp add: bread_def int32_def lseek_def sys_read_def image_ok_def inode_bitmap_def
      block_of_def FREE_INODE_BLOCK_NUM_def BLOCK_SIZE_def Let_def m)
qed

lemma find_free_from_none:
  "find_free_from i block = -1 \<longleftrightarrow> (\<forall>j. i \<le> j \<and> j < BLOCK_SIZE * 8 \<longrightarrow> allocated block j)"
proof (induction i block rule: find_free_from.induct)
  case (1 i block)
  show ?case
  proof (cases "BLOCK_SIZE * 8 \<le> i")
    case True
    then show ?thesis by (subst find_free_from.simps) auto
  next
    case False
    show ?thesis
    proof (cases "allocated block i")
      case True
      with False 1 have "find_free_from i block = -1 \<longleftrightarrow>
        (\<forall>j. Suc i \<le> j \<and> j < BLOCK_SIZE * 8 \<longrightarrow> allocated block j)"
        by (subst find_free_from.simps) (simp add: allocated_def)
      also have "\<dots> \<longleftrightarrow> (\<forall>j. i \<le> j \<and> j < BLOCK_SIZE * 8 \<longrightarrow> allocated block j)"
        using True by (metis Suc_leI le_neq_implies_less Suc_leD)
      finally show ?thesis .
    next
      case F: False
      with False show ?thesis
        by (subst find_free_from.simps) (auto simp: allocated_def)
    qed
  qed
qed


lemma find_free_from_some:
  "find_free_from i block = -1 \<or>
   (\<exists>k. find_free_from i block = int k \<and> i \<le> k \<and> k < BLOCK_SIZE * 8 \<and>
        \<not> allocated block k \<and> (\<forall>j. i \<le> j \<and> j < k \<longrightarrow> allocated block j))"
proof (induction i block rule: find_free_from.induct)
  case (1 i block)
  show ?case
  proof (cases "BLOCK_SIZE * 8 \<le> i")
    case True
    then show ?thesis by (subst find_free_from.simps) simp
  next
    case False
    show ?thesis
    proof (cases "allocated block i")
      case True
      have eq: "find_free_from i block = find_free_from (Suc i) block"
        using False True by (subst find_free_from.simps) (simp add: allocated_def)
      from 1 False True have
        "find_free_from (Suc i) block = -1 \<or>
         (\<exists>k. find_free_from (Suc i) block = int k \<and> Suc i \<le> k \<and> k < BLOCK_SIZE * 8 \<and>
           \<not> allocated block k \<and> (\<forall>j. Suc i \<le> j \<and> j < k \<longrightarrow> allocated block j))"
        by (simp add: allocated_def)
      then show ?thesis
      proof
        assume "find_free_from (Suc i) block = -1"
        then show ?thesis by (simp add: eq)
      next
        assume "\<exists>k. find_free_from (Suc i) block = int k \<and> Suc i \<le> k \<and> k < BLOCK_SIZE * 8 \<and>
           \<not> allocated block k \<and> (\<forall>j. Suc i \<le> j \<and> j < k \<longrightarrow> allocated block j)"
        then obtain k where k: "find_free_from (Suc i) block = int k" "Suc i \<le> k"
          "k < BLOCK_SIZE * 8" "\<not> allocated block k"
          "\<forall>j. Suc i \<le> j \<and> j < k \<longrightarrow> allocated block j"
          by blast
        have "\<forall>j. i \<le> j \<and> j < k \<longrightarrow> allocated block j"
        proof (intro allI impI)
          fix j assume "i \<le> j \<and> j < k"
          then have "j = i \<or> (Suc i \<le> j \<and> j < k)" by arith
          then show "allocated block j" using True k(5) by blast
        qed
        with k eq show ?thesis by auto
      qed
    next
      case F: False
      have "find_free_from i block = int i"
        using False F by (subst find_free_from.simps) (simp add: allocated_def)
      with False F show ?thesis by auto
    qed
  qed
qed

lemma length_set_free: "length (set_free block num v) = length block"
  by (simp add: set_free_def Let_def)

lemma allocated_set_free:
  assumes "k < BLOCK_SIZE * 8" "length block = BLOCK_SIZE" "j < BLOCK_SIZE * 8"
  shows "allocated (set_free block (int k) 1) j \<longleftrightarrow> j = k \<or> allocated block j"
proof (cases "j div 8 = k div 8")
  case True
  have kb: "k div 8 < length block" using assms by (simp add: BLOCK_SIZE_def)
  have "j = k \<longleftrightarrow> j mod 8 = k mod 8"
    using True by (metis div_mult_mod_eq)
  then show ?thesis
    using True kb
    by (auto simp add: allocated_def set_free_def Let_def bit_set_bit_iff)
next
  case False
  then have "j \<noteq> k" by auto
  with False show ?thesis
    by (simp add: allocated_def set_free_def Let_def)
qed

lemma bwrite_ok:
  assumes "image_ok w" "length blk = BLOCK_SIZE"
  shows "bwrite FREE_INODE_BLOCK_NUM blk w =
     w\<lparr>image_bytes := take BLOCK_SIZE (image_bytes w) @ blk @ drop (2 * BLOCK_SIZE) (image_bytes w),
       image_pos := 2 * BLOCK_SIZE,
       io_log := io_log w @ [Lseek 4096 4096, Write 4096 4096]\<rparr>"
  using assms
  by (simp add: bwrite_def int32_def lseek_def sys_write_def image_ok_def
      FREE_INODE_BLOCK_NUM_def BLOCK_SIZE_def Let_def)


lemma length_inode_bitmap: "image_ok w \<Longrightarrow> length (inode_bitmap w) = BLOCK_SIZE"
  by (auto simp add: image_ok_def inode_bitmap_def block_of_def FREE_INODE_BLOCK_NUM_def
      BLOCK_SIZE_def)

lemma ialloc_ok:
  assumes "image_ok w" "length buf = BLOCK_SIZE"
  shows "ialloc buf w =
     (if find_free (inode_bitmap w) \<noteq> -1
      then (find_free (inode_bitmap w),
            w\<lparr>image_bytes := take BLOCK_SIZE (image_bytes w) @
                 set_free (inode_bitmap w) (find_free (inode_bitmap w)) 1 @
                 drop (2 * BLOCK_SIZE) (image_bytes w),
              image_pos := 2 * BLOCK_SIZE,
              io_log := io_log w @
                 [Lseek 4096 4096, Read 4096 4096, Lseek 4096 4096, Write 4096 4096]\<rparr>)
      else (-1, w\<lparr>image_pos := 2 * BLOCK_SIZE,
                  io_log := io_log w @ [Lseek 4096 4096, Read 4096 4096]\<rparr>))"
proof -
  let ?w1 = "w\<lparr>image_pos := 2 * BLOCK_SIZE,
        io_log := io_log w @ [Lseek 4096 4096, Read 4096 4096]\<rparr>"
  have ok1: "image_ok ?w1" using assms(1) by (simp add: image_ok_def)
  have len: "length (set_free (inode_bitmap w) (find_free (inode_bitmap w)) 1) = BLOCK_SIZE"
    using assms(1) by (simp add: length_set_free length_inode_bitmap)
  show ?thesis
    by (simp add: ialloc_def bread_ok [OF assms] bwrite_ok [OF ok1 len] Let_def)
qed

lemma inode_bitmap_written:
  assumes "image_ok w" "length blk = BLOCK_SIZE"
  shows "inode_bitmap (w\<lparr>image_bytes := take BLOCK_SIZE (image_bytes w) @ blk @
                 drop (2 * BLOCK_SIZE) (image_bytes w), image_pos := p, io_log := l\<rparr>) = blk"
  using assms
  by (auto simp add: image_ok_def inode_bitmap_def block_of_def FREE_INODE_BLOCK_NUM_def
      BLOCK_SIZE_def)

lemma image_ok_written:
  assumes "image_ok w" "length blk = BLOCK_SIZE"
  shows "image_ok (w\<lparr>image_bytes := take BLOCK_SIZE (image_bytes w) @ blk @
                 drop (2 * BLOCK_SIZE) (image_bytes w), image_pos := p, io_log := l\<rparr>)"
  using assms
  by (auto simp add: image_ok_def FREE_INODE_BLOCK_NUM_def BLOCK_SIZE_def)

lemma find_free_cases:
  "find_free block = -1 \<and> (\<forall>j<BLOCK_SIZE * 8. allocated block j) \<or>
   (\<exists>k. find_free block = int k \<and> k < BLOCK_SIZE * 8 \<and>
        \<not> allocated block k \<and> (\<forall>j<k. allocated block j))"
  using find_free_from_some [of 0 block] find_free_from_none [of 0 block]
  unfolding find_free_def by auto

lemma find_free_lowest:
  assumes "k < BLOCK_SIZE * 8" "\<not> allocated block k" "\<forall>j<k. allocated block j"
  shows "find_free block = int k"
proof -
  from find_free_cases [of block] show ?thesis
  proof
    assume "find_free block = -1 \<and> (\<forall>j<BLOCK_SIZE * 8. allocated block j)"
    with assms show ?thesis by blast
  next
    assume "\<exists>k'. find_free block = int k' \<and> k' < BLOCK_SIZE * 8 \<and>
        \<not> allocated block k' \<and> (\<forall>j<k'. allocated block j)"
    then obtain k' where k': "find_free block = int k'" "\<not> allocated block k'"
      "\<forall>j<k'. allocated block j" by blast
    have "\<not> k' < k" using assms(3) k'(2) by blast
    moreover have "\<not> k < k'" using assms(2) k'(3) by blast
    ultimately have "k' = k" by arith
    with k'(1) show ?thesis by simp
  qed
qed

lemma ialloc_found:
  assumes "image_ok w" and "length inode_map = BLOCK_SIZE"
    and "k < BLOCK_SIZE * 8" and "\<not> allocated (inode_bitmap w) k"
    and "\<forall>j<k. allocated (inode_bitmap w) j"
  shows "fst (ialloc inode_map w) = int k \<and>
    calls_since w (snd (ialloc inode_map w)) =
      [Lseek 4096 4096, Read 4096 4096, Lseek 4096 4096, Write 4096 4096] \<and>
    image_ok (snd (ialloc inode_map w)) \<and>
    (\<forall>j<BLOCK_SIZE * 8. allocated (inode_bitmap (snd (ialloc inode_map w))) j \<longleftrightarrow>
        j = k \<or> allocated (inode_bitmap w) j) \<and>
    outside_block (snd (ialloc inode_map w)) 1 = outside_block w 1"
proof -
  have ff: "find_free (inode_bitmap w) = int k"
    using assms(3-5) by (rule find_free_lowest)
  have len: "length (inode_bitmap w) = BLOCK_SIZE"
    using assms(1) by (rule length_inode_bitmap)
  have len': "length (set_free (inode_bitmap w) (int k) 1) = BLOCK_SIZE"
    by (simp add: length_set_free len)
  have eq: "ialloc inode_map w =
     (int k, w\<lparr>image_bytes := take BLOCK_SIZE (image_bytes w) @
                 set_free (inode_bitmap w) (int k) 1 @
                 drop (2 * BLOCK_SIZE) (image_bytes w),
              image_pos := 2 * BLOCK_SIZE,
              io_log := io_log w @
                 [Lseek 4096 4096, Read 4096 4096, Lseek 4096 4096, Write 4096 4096]\<rparr>)"
    by (simp add: ialloc_ok [OF assms(1,2)] ff)
  have bm: "inode_bitmap (snd (ialloc inode_map w)) = set_free (inode_bitmap w) (int k) 1"
    by (simp add: eq inode_bitmap_written [OF assms(1) len'])
  have c1: "fst (ialloc inode_map w) = int k" by (simp add: eq)
  have c2: "calls_since w (snd (ialloc inode_map w)) =
      [Lseek 4096 4096, Read 4096 4096, Lseek 4096 4096, Write 4096 4096]"
    by (simp add: eq calls_since_def)
  have c3: "image_ok (snd (ialloc inode_map w))"
    by (simp add: eq image_ok_written [OF assms(1) len'])
  have c4: "\<forall>j<BLOCK_SIZE * 8. allocated (inode_bitmap (snd (ialloc inode_map w))) j \<longleftrightarrow>
        j = k \<or> allocated (inode_bitmap w) j"
    by (simp add: bm allocated_set_free [OF assms(3) len])
  have c5: "outside_block (snd (ialloc inode_map w)) 1 = outside_block w 1"
    using assms(1) len'
    by (auto simp add: eq outside_block_def image_ok_def FREE_INODE_BLOCK_NUM_def BLOCK_SIZE_def)
  from c1 c2 c3 c4 c5 show ?thesis by blast
qed


text \<open>
  Claim C1. On an open image that holds the bitmap block, \<^verbatim>\<open>ialloc\<close> does the four
  steps and nothing else: it reads the inode free-bitmap block (one seek to the block,
  one read of a block), finds the lowest free bit \<open>k\<close>, sets that bit in the block and
  writes the block back before it returns (one seek, one write of a block: when the call
  returns, the bitmap of the image has bit \<open>k\<close> set and every other bit as before, and
  the image outside the bitmap block is as before), and returns \<open>k\<close>.
\<close>

theorem ialloc_lowest_free_bit:
  assumes "image_ok w" and "length inode_map = BLOCK_SIZE"
    and "k < BLOCK_SIZE * 8" and "\<not> allocated (inode_bitmap w) k"
    and "\<forall>j<k. allocated (inode_bitmap w) j"
  shows "fst (ialloc inode_map w) = int k \<and>
    calls_since w (snd (ialloc inode_map w)) =
      [Lseek 4096 4096, Read 4096 4096, Lseek 4096 4096, Write 4096 4096] \<and>
    image_ok (snd (ialloc inode_map w)) \<and>
    (\<forall>j<BLOCK_SIZE * 8. allocated (inode_bitmap (snd (ialloc inode_map w))) j \<longleftrightarrow>
        j = k \<or> allocated (inode_bitmap w) j) \<and>
    outside_block (snd (ialloc inode_map w)) 1 = outside_block w 1"
  using assms by (rule ialloc_found)

theorem ialloc_lowest_free_bit_witness:
  "fst (ialloc zero_block fresh_image) = 0 \<and>
   allocated (inode_bitmap (snd (ialloc zero_block fresh_image))) 0 \<and>
   calls_since fresh_image (snd (ialloc zero_block fresh_image)) =
      [Lseek 4096 4096, Read 4096 4096, Lseek 4096 4096, Write 4096 4096]"
proof -
  have k: "(0::nat) < BLOCK_SIZE * 8" by (simp add: BLOCK_SIZE_def)
  have free: "\<not> allocated (inode_bitmap fresh_image) 0"
    by (simp add: inode_bitmap_fresh not_allocated_zero)
  have low: "\<forall>j<0::nat. allocated (inode_bitmap fresh_image) j" by simp
  from ialloc_lowest_free_bit [OF image_ok_fresh length_zero_block k free low] k
  show ?thesis by simp
qed

text \<open>
  Claim C2. When every bit of the inode free bitmap is 1, \<^verbatim>\<open>ialloc\<close> returns the
  not-found signal, the bytes of the image are what they were, and the only system calls
  are the seek and the single read of the bitmap block: no write, no second attempt.
\<close>

theorem ialloc_exhausted:
  assumes "image_ok w" and "length inode_map = BLOCK_SIZE"
    and "\<forall>j<BLOCK_SIZE * 8. allocated (inode_bitmap w) j"
  shows "fst (ialloc inode_map w) = -1 \<and>
    image_bytes (snd (ialloc inode_map w)) = image_bytes w \<and>
    calls_since w (snd (ialloc inode_map w)) = [Lseek 4096 4096, Read 4096 4096]"
proof -
  have "find_free (inode_bitmap w) = -1"
    using find_free_cases [of "inode_bitmap w"] assms(3) by blast
  then have "ialloc inode_map w =
      (-1, w\<lparr>image_pos := 2 * BLOCK_SIZE,
              io_log := io_log w @ [Lseek 4096 4096, Read 4096 4096]\<rparr>)"
    by (simp add: ialloc_ok [OF assms(1,2)])
  then show ?thesis by (simp add: calls_since_def)
qed

theorem ialloc_exhausted_witness:
  "fst (ialloc zero_block full_image) = -1 \<and>
   image_bytes (snd (ialloc zero_block full_image)) = image_bytes full_image \<and>
   calls_since full_image (snd (ialloc zero_block full_image)) = [Lseek 4096 4096, Read 4096 4096]"
proof -
  have all: "\<forall>j<BLOCK_SIZE * 8. allocated (inode_bitmap full_image) j"
    by (simp add: inode_bitmap_full allocated_ones)
  from ialloc_exhausted [OF image_ok_full length_zero_block all] show ?thesis .
qed

lemma fst_ialloc: "fst (ialloc inode_map w) = find_free (fst (bread FREE_INODE_BLOCK_NUM inode_map w))"
  by (simp add: ialloc_def Let_def split: prod.splits)

text \<open>
  Claim C10. The not-found signal of \<^verbatim>\<open>ialloc\<close> is \<open>-1\<close>: \<^verbatim>\<open>ialloc\<close> returns \<open>-1\<close>
  exactly when the block it has read has no free bit among its \<open>BLOCK_SIZE * 8\<close> bits,
  and otherwise the index of a free bit, which is not negative.
\<close>

theorem ialloc_not_found_signal:
  "(fst (ialloc inode_map w) = -1 \<longleftrightarrow>
      (\<forall>j<BLOCK_SIZE * 8. allocated (fst (bread FREE_INODE_BLOCK_NUM inode_map w)) j)) \<and>
   (fst (ialloc inode_map w) \<noteq> -1 \<longrightarrow>
      (\<exists>k<BLOCK_SIZE * 8. fst (ialloc inode_map w) = int k \<and>
          \<not> allocated (fst (bread FREE_INODE_BLOCK_NUM inode_map w)) k))"
  using find_free_cases [of "fst (bread FREE_INODE_BLOCK_NUM inode_map w)"]
  unfolding fst_ialloc by auto

theorem ialloc_not_found_signal_witness:
  "fst (ialloc zero_block full_image) = -1 \<and> 0 \<le> fst (ialloc zero_block fresh_image)"
proof -
  have rd: "fst (bread FREE_INODE_BLOCK_NUM zero_block full_image) = ones_block"
    by (simp add: bread_ok [OF image_ok_full length_zero_block] inode_bitmap_full)
  have rd0: "fst (bread FREE_INODE_BLOCK_NUM zero_block fresh_image) = zero_block"
    by (simp add: bread_ok [OF image_ok_fresh length_zero_block] inode_bitmap_fresh)
  have all: "\<forall>j<BLOCK_SIZE * 8. allocated (fst (bread FREE_INODE_BLOCK_NUM zero_block full_image)) j"
    by (simp add: rd allocated_ones)
  have k: "(0::nat) < BLOCK_SIZE * 8" by (simp add: BLOCK_SIZE_def)
  have nall: "\<not> (\<forall>j<BLOCK_SIZE * 8. allocated (fst (bread FREE_INODE_BLOCK_NUM zero_block fresh_image)) j)"
    unfolding rd0 using k not_allocated_zero by blast
  have a: "fst (ialloc zero_block full_image) = -1"
    using ialloc_not_found_signal [of zero_block full_image] all by blast
  have "fst (ialloc zero_block fresh_image) \<noteq> -1"
    using ialloc_not_found_signal [of zero_block fresh_image] nall by blast
  then have "\<exists>k<BLOCK_SIZE * 8. fst (ialloc zero_block fresh_image) = int k"
    using ialloc_not_found_signal [of zero_block fresh_image] by blast
  then have "0 \<le> fst (ialloc zero_block fresh_image)" by auto
  with a show ?thesis by blast
qed

lemma int32_in_range:
  assumes "- (2 ^ 31) \<le> x" "x < 2 ^ 31"
  shows "int32 x = x"
  using assms by (simp add: int32_def sint_sbintrunc' signed_take_bit_int_eq_self)

lemma int32_bitmap_offset:
  "int32 (FREE_INODE_BLOCK_NUM * int BLOCK_SIZE) = FREE_INODE_BLOCK_NUM * int BLOCK_SIZE"
  by (rule int32_in_range) (simp_all add: FREE_INODE_BLOCK_NUM_def BLOCK_SIZE_def)

lemma bread_log:
  "\<exists>r1 r2. io_log (snd (bread b buf w)) =
     io_log w @ [Lseek (int32 (b * int BLOCK_SIZE)) r1, Read BLOCK_SIZE r2]"
  by (simp add: bread_def lseek_def sys_read_def Let_def)

lemma bwrite_log:
  "\<exists>r1 r2. io_log (bwrite b buf w) =
     io_log w @ [Lseek (int32 (b * int BLOCK_SIZE)) r1, Write BLOCK_SIZE r2]"
  by (simp add: bwrite_def lseek_def sys_write_def Let_def)

lemma bread_incore: "incore (snd (bread b buf w)) = incore w"
  by (simp add: bread_def lseek_def sys_read_def Let_def)

lemma bwrite_incore: "incore (bwrite b buf w) = incore w"
  by (simp add: bwrite_def lseek_def sys_write_def Let_def)

lemma bread_incore_indep:
  "bread b buf (w\<lparr>incore := c\<rparr>) = (fst (bread b buf w), (snd (bread b buf w))\<lparr>incore := c\<rparr>)"
  by (simp add: bread_def lseek_def sys_read_def Let_def)

lemma bwrite_incore_indep:
  "bwrite b buf (w\<lparr>incore := c\<rparr>) = (bwrite b buf w)\<lparr>incore := c\<rparr>"
  by (simp add: bwrite_def lseek_def sys_write_def Let_def)

lemma bread_image_bytes: "image_bytes (snd (bread b buf w)) = image_bytes w"
  by (simp add: bread_def lseek_def sys_read_def Let_def)

lemma bread_image_open: "image_open (snd (bread b buf w)) = image_open w"
  by (simp add: bread_def lseek_def sys_read_def Let_def)

lemma bwrite_outside:
  assumes "image_open w \<longrightarrow> BLOCK_SIZE \<le> length (image_bytes w)"
  shows "outside_block (bwrite FREE_INODE_BLOCK_NUM blk w) 1 = outside_block w 1"
  using assms
  by (auto simp add: bwrite_def int32_def lseek_def sys_write_def Let_def outside_block_def
      FREE_INODE_BLOCK_NUM_def BLOCK_SIZE_def)


text \<open>
  Claim C9. Whatever the state and the buffer, \<^verbatim>\<open>ialloc\<close> seeks only to the inode
  free-bitmap block and transfers one block at a time: one read, and then one write
  exactly when the result is not \<open>-1\<close>. It leaves the in-core array as it was and its
  result does not depend on it. On an image that holds the bitmap block, the bytes
  outside of that block are unchanged.
\<close>

theorem ialloc_frame:
  "(\<exists>r1 r2 r3 r4. calls_since w (snd (ialloc inode_map w)) =
       [Lseek (FREE_INODE_BLOCK_NUM * int BLOCK_SIZE) r1, Read BLOCK_SIZE r2] @
       (if fst (ialloc inode_map w) = -1 then []
        else [Lseek (FREE_INODE_BLOCK_NUM * int BLOCK_SIZE) r3, Write BLOCK_SIZE r4])) \<and>
   incore (snd (ialloc inode_map w)) = incore w \<and>
   ialloc inode_map (w\<lparr>incore := c\<rparr>) =
     (fst (ialloc inode_map w), (snd (ialloc inode_map w))\<lparr>incore := c\<rparr>) \<and>
   (image_ok w \<longrightarrow> outside_block (snd (ialloc inode_map w)) 1 = outside_block w 1)"
proof -
  obtain blk w1 where b: "bread FREE_INODE_BLOCK_NUM inode_map w = (blk, w1)"
    by (cases "bread FREE_INODE_BLOCK_NUM inode_map w")
  obtain r1 r2 where l1: "io_log w1 =
      io_log w @ [Lseek (FREE_INODE_BLOCK_NUM * int BLOCK_SIZE) r1, Read BLOCK_SIZE r2]"
    using bread_log [of FREE_INODE_BLOCK_NUM inode_map w] b
    by (auto simp add: int32_bitmap_offset)
  have i1: "incore w1 = incore w"
    using bread_incore [of FREE_INODE_BLOCK_NUM inode_map w] b by simp
  have b1: "image_bytes w1 = image_bytes w" "image_open w1 = image_open w"
    using bread_image_bytes [of FREE_INODE_BLOCK_NUM inode_map w]
      bread_image_open [of FREE_INODE_BLOCK_NUM inode_map w] b by simp_all
  have bc: "bread FREE_INODE_BLOCK_NUM inode_map (w\<lparr>incore := c\<rparr>) = (blk, w1\<lparr>incore := c\<rparr>)"
    by (simp add: bread_incore_indep b)
  show ?thesis
  proof (cases "find_free blk = -1")
    case True
    then have eq: "ialloc inode_map w = (-1, w1)"
      by (simp add: ialloc_def b Let_def)
    have eqc: "ialloc inode_map (w\<lparr>incore := c\<rparr>) = (-1, w1\<lparr>incore := c\<rparr>)"
      using True by (simp add: ialloc_def bc Let_def)
    have "outside_block w1 1 = outside_block w 1"
      by (simp add: outside_block_def b1)
    then show ?thesis
      by (simp add: eq eqc calls_since_def l1 i1)
  next
    case False
    let ?w2 = "bwrite FREE_INODE_BLOCK_NUM (set_free blk (find_free blk) 1) w1"
    have eq: "ialloc inode_map w = (find_free blk, ?w2)"
      using False by (simp add: ialloc_def b Let_def)
    have eqc: "ialloc inode_map (w\<lparr>incore := c\<rparr>) = (find_free blk, ?w2\<lparr>incore := c\<rparr>)"
      using False by (simp add: ialloc_def bc Let_def bwrite_incore_indep)
    obtain r3 r4 where l2: "io_log ?w2 =
        io_log w1 @ [Lseek (FREE_INODE_BLOCK_NUM * int BLOCK_SIZE) r3, Write BLOCK_SIZE r4]"
      using bwrite_log [of FREE_INODE_BLOCK_NUM "set_free blk (find_free blk) 1" w1]
      by (auto simp add: int32_bitmap_offset)
    have c1: "\<exists>r1 r2 r3 r4. calls_since w (snd (ialloc inode_map w)) =
       [Lseek (FREE_INODE_BLOCK_NUM * int BLOCK_SIZE) r1, Read BLOCK_SIZE r2] @
       (if fst (ialloc inode_map w) = -1 then []
        else [Lseek (FREE_INODE_BLOCK_NUM * int BLOCK_SIZE) r3, Write BLOCK_SIZE r4])"
      using False by (simp add: eq calls_since_def l1 l2)
    have c2: "incore (snd (ialloc inode_map w)) = incore w"
      by (simp add: eq bwrite_incore i1)
    have c4: "image_ok w \<longrightarrow> outside_block (snd (ialloc inode_map w)) 1 = outside_block w 1"
    proof
      assume "image_ok w"
      then have "image_open w1 \<longrightarrow> BLOCK_SIZE \<le> length (image_bytes w1)"
        by (simp add: b1 image_ok_def)
      then have "outside_block ?w2 1 = outside_block w1 1"
        by (rule bwrite_outside)
      also have "\<dots> = outside_block w 1"
        by (simp add: outside_block_def b1)
      finally show "outside_block (snd (ialloc inode_map w)) 1 = outside_block w 1"
        by (simp add: eq)
    qed
    from c1 c2 c4 show ?thesis by (simp add: eq eqc)
  qed
qed

theorem ialloc_frame_witness:
  "incore (snd (ialloc zero_block fresh_image)) = incore fresh_image \<and>
   outside_block (snd (ialloc zero_block fresh_image)) 1 = outside_block fresh_image 1"
  using ialloc_frame [of fresh_image zero_block "[]"] image_ok_fresh by blast

lemma ialloc_keeps:
  assumes "image_ok w" "length buf = BLOCK_SIZE"
  shows "image_ok (snd (ialloc buf w)) \<and>
    (\<forall>j<BLOCK_SIZE * 8. allocated (inode_bitmap w) j \<longrightarrow>
        allocated (inode_bitmap (snd (ialloc buf w))) j) \<and>
    (fst (ialloc buf w) = -1 \<or>
      (\<exists>k<BLOCK_SIZE * 8. fst (ialloc buf w) = int k \<and> \<not> allocated (inode_bitmap w) k \<and>
         allocated (inode_bitmap (snd (ialloc buf w))) k))"
proof -
  from find_free_cases [of "inode_bitmap w"] show ?thesis
  proof
    assume a: "find_free (inode_bitmap w) = -1 \<and> (\<forall>j<BLOCK_SIZE * 8. allocated (inode_bitmap w) j)"
    then have eq: "ialloc buf w =
      (-1, w\<lparr>image_pos := 2 * BLOCK_SIZE,
              io_log := io_log w @ [Lseek 4096 4096, Read 4096 4096]\<rparr>)"
      by (simp add: ialloc_ok [OF assms])
    have "inode_bitmap (snd (ialloc buf w)) = inode_bitmap w"
      by (simp add: eq inode_bitmap_def block_of_def)
    moreover have "image_ok (snd (ialloc buf w))"
      using assms(1) by (simp add: eq image_ok_def)
    ultimately show ?thesis by (simp add: eq)
  next
    assume "\<exists>k. find_free (inode_bitmap w) = int k \<and> k < BLOCK_SIZE * 8 \<and>
        \<not> allocated (inode_bitmap w) k \<and> (\<forall>j<k. allocated (inode_bitmap w) j)"
    then obtain k where k: "k < BLOCK_SIZE * 8" "\<not> allocated (inode_bitmap w) k"
        "\<forall>j<k. allocated (inode_bitmap w) j" by blast
    note f = ialloc_found [OF assms k]
    from f have "fst (ialloc buf w) = int k" by blast
    moreover from f have "image_ok (snd (ialloc buf w))" by blast
    moreover from f have a: "\<forall>j<BLOCK_SIZE * 8. allocated (inode_bitmap (snd (ialloc buf w))) j \<longleftrightarrow>
        j = k \<or> allocated (inode_bitmap w) j" by blast
    moreover from a k(1) have "allocated (inode_bitmap (snd (ialloc buf w))) k" by blast
    ultimately show ?thesis using k(1,2) by blast
  qed
qed


lemma ialloc_calls_avoid:
  assumes "image_ok w" "\<forall>b\<in>set rest. length b = BLOCK_SIZE" "k < BLOCK_SIZE * 8"
    "allocated (inode_bitmap w) k"
  shows "int k \<notin> set (fst (ialloc_calls rest w))"
  using assms
proof (induction rest arbitrary: w)
  case Nil
  then show ?case by simp
next
  case (Cons b rest)
  have lb: "length b = BLOCK_SIZE" using Cons.prems(2) by simp
  note keep = ialloc_keeps [OF Cons.prems(1) lb]
  from keep have ok': "image_ok (snd (ialloc b w))" by blast
  from keep Cons.prems(3,4) have al': "allocated (inode_bitmap (snd (ialloc b w))) k" by blast
  have ne: "fst (ialloc b w) \<noteq> int k"
  proof
    assume e: "fst (ialloc b w) = int k"
    from keep have "fst (ialloc b w) = -1 \<or>
      (\<exists>k'<BLOCK_SIZE * 8. fst (ialloc b w) = int k' \<and> \<not> allocated (inode_bitmap w) k')"
      by blast
    then show False
    proof
      assume "fst (ialloc b w) = -1"
      with e show False by simp
    next
      assume "\<exists>k'<BLOCK_SIZE * 8. fst (ialloc b w) = int k' \<and> \<not> allocated (inode_bitmap w) k'"
      then obtain k' where "fst (ialloc b w) = int k'" "\<not> allocated (inode_bitmap w) k'" by blast
      with e Cons.prems(4) show False by simp
    qed
  qed
  have rest: "int k \<notin> set (fst (ialloc_calls rest (snd (ialloc b w))))"
    using Cons.IH [OF ok' _ Cons.prems(3) al'] Cons.prems(2) by simp
  show ?case
    using ne rest by (simp add: split_beta Let_def)
qed

text \<open>
  Claim C3. On an open image that holds the bitmap block, an inode number that
  \<^verbatim>\<open>ialloc\<close> has returned is returned by none of the calls of \<^verbatim>\<open>ialloc\<close> that follow
  (nothing but \<^verbatim>\<open>ialloc\<close> runs in between, so no bit is cleared).
\<close>

theorem ialloc_monotonic:
  assumes "image_ok w" and "length inode_map = BLOCK_SIZE"
    and "\<forall>b\<in>set rest. length b = BLOCK_SIZE"
    and "fst (ialloc inode_map w) \<noteq> -1"
  shows "fst (ialloc inode_map w) \<notin> set (fst (ialloc_calls rest (snd (ialloc inode_map w))))"
proof -
  note keep = ialloc_keeps [OF assms(1,2)]
  from keep assms(4) obtain k where k: "k < BLOCK_SIZE * 8" "fst (ialloc inode_map w) = int k"
    "allocated (inode_bitmap (snd (ialloc inode_map w))) k" by blast
  from keep have ok': "image_ok (snd (ialloc inode_map w))" by blast
  from ialloc_calls_avoid [OF ok' assms(3) k(1) k(3)] show ?thesis by (simp add: k(2))
qed

theorem ialloc_monotonic_witness:
  "fst (ialloc zero_block fresh_image) = 0 \<and>
   0 \<notin> set (fst (ialloc_calls [zero_block, zero_block] (snd (ialloc zero_block fresh_image))))"
proof -
  have k: "(0::nat) < BLOCK_SIZE * 8" by (simp add: BLOCK_SIZE_def)
  have free: "\<not> allocated (inode_bitmap fresh_image) 0"
    by (simp add: inode_bitmap_fresh not_allocated_zero)
  have low: "\<forall>j<0::nat. allocated (inode_bitmap fresh_image) j" by simp
  have r: "fst (ialloc zero_block fresh_image) = 0"
    using ialloc_found [OF image_ok_fresh length_zero_block k free low] by simp
  have ne: "fst (ialloc zero_block fresh_image) \<noteq> -1" by (simp add: r)
  have len: "\<forall>b\<in>set [zero_block, zero_block]. length b = BLOCK_SIZE"
    by (simp add: length_zero_block)
  from ialloc_monotonic [OF image_ok_fresh length_zero_block len ne] r
  show ?thesis by simp
qed

section \<open>Properties of bread and bwrite\<close>

text \<open>
  Claim C8, as amended. \<^verbatim>\<open>bread\<close> and \<^verbatim>\<open>bwrite\<close> make one attempt, a seek to the
  offset that block.c computes in its 32-bit \<open>int\<close> and one transfer of \<open>BLOCK_SIZE\<close>
  bytes, whatever those calls return, and hand no result of them to the caller:
  \<^verbatim>\<open>bread\<close> returns the caller's buffer, in which everything past the bytes that the
  read transferred is what the caller put there, and \<^verbatim>\<open>bwrite\<close> returns nothing.
  When the descriptor is not open, both system calls of each return \<open>-1\<close>, and
  \<^verbatim>\<open>bread\<close> and \<^verbatim>\<open>bwrite\<close> return all the same, the buffer and the image as they
  were. For a block number from \<open>-2^19\<close> up to \<open>2^19 - 1\<close> the offset is the block
  number times \<open>BLOCK_SIZE\<close>.
\<close>

theorem bread_bwrite_discard_results:
  "(\<exists>r1 r2. calls_since w (snd (bread b buf w)) =
        [Lseek (int32 (b * int BLOCK_SIZE)) r1, Read BLOCK_SIZE r2] \<and>
      r2 \<le> int BLOCK_SIZE \<and>
      drop (nat r2) (fst (bread b buf w)) = drop (nat r2) buf) \<and>
   (\<exists>r1 r2. calls_since w (bwrite b buf w) =
        [Lseek (int32 (b * int BLOCK_SIZE)) r1, Write BLOCK_SIZE r2] \<and>
      r2 \<le> int BLOCK_SIZE) \<and>
   (\<not> image_open w \<longrightarrow>
      bread b buf w =
        (buf, w\<lparr>io_log := io_log w @
           [Lseek (int32 (b * int BLOCK_SIZE)) (-1), Read BLOCK_SIZE (-1)]\<rparr>) \<and>
      bwrite b buf w =
        w\<lparr>io_log := io_log w @
           [Lseek (int32 (b * int BLOCK_SIZE)) (-1), Write BLOCK_SIZE (-1)]\<rparr>) \<and>
   (- (2 ^ 19) \<le> b \<and> b < 2 ^ 19 \<longrightarrow> int32 (b * int BLOCK_SIZE) = b * int BLOCK_SIZE)"
proof -
  have "- (2 ^ 19) \<le> b \<and> b < 2 ^ 19 \<longrightarrow> int32 (b * int BLOCK_SIZE) = b * int BLOCK_SIZE"
  proof
    assume "- (2 ^ 19) \<le> b \<and> b < 2 ^ 19"
    then show "int32 (b * int BLOCK_SIZE) = b * int BLOCK_SIZE"
      by (intro int32_in_range) (simp_all add: BLOCK_SIZE_def)
  qed
  then show ?thesis
    by (simp add: calls_since_def bread_def bwrite_def lseek_def sys_read_def sys_write_def
        Let_def)
qed

theorem bread_bwrite_discard_results_witness:
  "fst (bread 3 ones_block closed_image) = ones_block \<and>
   image_bytes (bwrite 3 ones_block closed_image) = image_bytes closed_image \<and>
   calls_since closed_image (bwrite 3 ones_block closed_image) =
     [Lseek 12288 (-1), Write BLOCK_SIZE (-1)] \<and>
   calls_since closed_image (snd (bread 1048576 ones_block closed_image)) =
     [Lseek 0 (-1), Read BLOCK_SIZE (-1)]"
proof -
  have c: "\<not> image_open closed_image" by (simp add: closed_image_def)
  have r: "- (2 ^ 19) \<le> (3::int) \<and> (3::int) < 2 ^ 19" by simp
  have o: "int32 4294967296 = 0"
    by (simp add: int32_def)
  from bread_bwrite_discard_results [of closed_image 3 ones_block] c r
  have "bread 3 ones_block closed_image =
        (ones_block, closed_image\<lparr>io_log := io_log closed_image @
           [Lseek (int32 (3 * int BLOCK_SIZE)) (-1), Read BLOCK_SIZE (-1)]\<rparr>)"
    and "bwrite 3 ones_block closed_image =
        closed_image\<lparr>io_log := io_log closed_image @
           [Lseek (int32 (3 * int BLOCK_SIZE)) (-1), Write BLOCK_SIZE (-1)]\<rparr>"
    and "int32 (3 * int BLOCK_SIZE) = 3 * int BLOCK_SIZE"
    by blast+
  moreover from bread_bwrite_discard_results [of closed_image 1048576 ones_block] c
  have "bread 1048576 ones_block closed_image =
        (ones_block, closed_image\<lparr>io_log := io_log closed_image @
           [Lseek (int32 (1048576 * int BLOCK_SIZE)) (-1), Read BLOCK_SIZE (-1)]\<rparr>)"
    by blast
  ultimately show ?thesis by (simp add: calls_since_def o BLOCK_SIZE_def)
qed

text \<open>
  Claim C8 as stated fails. On an image file of no bytes the read of block 1 transfers 0
  of 4096 bytes, and \<^verbatim>\<open>bread\<close> returns to its caller exactly what it returns after
  the full transfer from an image of zero blocks: the buffer of zero bytes that was
  handed in. On a descriptor that is not open, seek and write both return \<open>-1\<close>, and
  \<^verbatim>\<open>bwrite\<close> returns as it always does, the state unchanged but for the log.
\<close>

theorem bread_bwrite_storage_error_counterexample:
  "calls_since empty_image (snd (bread 1 zero_block empty_image)) =
      [Lseek 4096 4096, Read 4096 0] \<and>
   calls_since fresh_image (snd (bread 1 zero_block fresh_image)) =
      [Lseek 4096 4096, Read 4096 4096] \<and>
   fst (bread 1 zero_block empty_image) = fst (bread 1 zero_block fresh_image) \<and>
   bwrite 1 ones_block closed_image =
      closed_image\<lparr>io_log := [Lseek 4096 (-1), Write 4096 (-1)]\<rparr>"
  by (simp add: calls_since_def bread_def bwrite_def int32_def lseek_def sys_read_def
      sys_write_def Let_def empty_image_def closed_image_def fresh_image_def image_of_def
      zero_block_def ones_block_def NUM_OF_BLOCKS_def BLOCK_SIZE_def)

section \<open>Properties of locate\<close>

lemma INODES_PER_BLOCK_64: "INODES_PER_BLOCK = 64"
  by (simp add: INODES_PER_BLOCK_def BLOCK_SIZE_def INODE_SIZE_def)

lemma locate_nonneg:
  assumes "0 \<le> n"
  shows "locate n = (n div 64 + INODE_FIRST_BLOCK, (n mod 64) * 64)"
  using assms
  by (simp add: locate_def Let_def INODES_PER_BLOCK_64 INODE_SIZE_def
      signed_divide_int_def signed_modulo_int_def sgn_if)

text \<open>
  Claim C4. For an inode number \<open>n\<close> that is not negative, \<open>locate\<close> gives the block
  \<open>n div inodes-per-block + first inode block\<close> and the byte offset
  \<open>(n mod inodes-per-block) * 64\<close>, with 4096 div 64 = 64 inodes per block.
\<close>

theorem locate_formula:
  assumes "0 \<le> n"
  shows "locate n =
      (n div int INODES_PER_BLOCK + INODE_FIRST_BLOCK, (n mod int INODES_PER_BLOCK) * 64) \<and>
    INODES_PER_BLOCK = 4096 div 64 \<and> INODES_PER_BLOCK = 64"
  using assms by (simp add: locate_nonneg INODES_PER_BLOCK_64)

theorem locate_formula_witness:
  "locate 70 = (4, 384) \<and> INODES_PER_BLOCK = 64"
proof -
  have "(0::int) \<le> 70" by simp
  from locate_formula [OF this] show ?thesis
    by (simp add: INODE_FIRST_BLOCK_def INODES_PER_BLOCK_64)
qed

lemma locate_offset_bound:
  assumes "0 \<le> n"
  shows "nat (snd (locate n)) + 64 \<le> BLOCK_SIZE"
proof -
  have "n mod 64 \<le> 63" by simp
  then have "(n mod 64) * 64 \<le> 4032" by simp
  moreover have "0 \<le> (n mod 64) * 64" by simp
  ultimately show ?thesis
    using assms by (simp add: locate_nonneg BLOCK_SIZE_def)
qed

section \<open>Properties of the inode codec\<close>

lemma read_write_u16:
  assumes "off + 1 < length b"
  shows "read_u16 (write_u16 b off v) off = v"
  using assms
  apply (simp add: read_u16_def write_u16_def)
  apply (rule bit_word_eqI)
  apply (auto simp add: bit_simps)
  done

lemma read_write_u32:
  assumes "off + 3 < length b"
  shows "read_u32 (write_u32 b off v) off = v"
proof (rule bit_word_eqI)
  fix n assume "n < LENGTH(32)"
  then consider "n < 8" | "8 \<le> n \<and> n < 16" | "16 \<le> n \<and> n < 24" | "24 \<le> n \<and> n < 32"
    by fastforce
  then show "bit (read_u32 (write_u32 b off v) off) n \<longleftrightarrow> bit v n"
    using assms
    by cases (auto simp add: read_u32_def write_u32_def bit_simps)
qed


lemma length_write_u8: "length (write_u8 b off v) = length b"
  by (simp add: write_u8_def)

lemma length_write_u16: "length (write_u16 b off v) = length b"
  by (simp add: write_u16_def)

lemma length_write_u32: "length (write_u32 b off v) = length b"
  by (simp add: write_u32_def)

lemma nth_write_u8_other: "p \<noteq> off \<Longrightarrow> write_u8 b off v ! p = b ! p"
  by (simp add: write_u8_def)

lemma nth_write_u16_other: "p < off \<or> off + 2 \<le> p \<Longrightarrow> write_u16 b off v ! p = b ! p"
  by (auto simp add: write_u16_def)

lemma nth_write_u32_other: "p < off \<or> off + 4 \<le> p \<Longrightarrow> write_u32 b off v ! p = b ! p"
  by (auto simp add: write_u32_def)

lemma read_write_u8: "off < length b \<Longrightarrow> read_u8 (write_u8 b off v) off = v"
  by (simp add: read_u8_def write_u8_def)

lemma read_u8_cong: "b' ! off = b ! off \<Longrightarrow> read_u8 b' off = read_u8 b off"
  by (simp add: read_u8_def)

lemma read_u16_cong:
  "b' ! off = b ! off \<Longrightarrow> b' ! (off + 1) = b ! (off + 1) \<Longrightarrow> read_u16 b' off = read_u16 b off"
  by (simp add: read_u16_def)

lemma read_u32_cong:
  "b' ! off = b ! off \<Longrightarrow> b' ! (off + 1) = b ! (off + 1) \<Longrightarrow> b' ! (off + 2) = b ! (off + 2) \<Longrightarrow>
   b' ! (off + 3) = b ! (off + 3) \<Longrightarrow> read_u32 b' off = read_u32 b off"
  by (simp add: read_u32_def)

lemma write_ptrs_Suc:
  "write_ptrs off ps (Suc k) b = write_u16 (write_ptrs off ps k b) (off + 9 + 2 * k) (ps ! k)"
  by (simp add: write_ptrs_def)

lemma write_ptrs_0: "write_ptrs off ps 0 b = b"
  by (simp add: write_ptrs_def)

lemma length_write_ptrs: "length (write_ptrs off ps k b) = length b"
  by (induction k) (simp_all add: write_ptrs_0 write_ptrs_Suc length_write_u16)

lemma nth_write_ptrs_other:
  "p < off + 9 \<or> off + 9 + 2 * k \<le> p \<Longrightarrow> write_ptrs off ps k b ! p = b ! p"
proof (induction k)
  case 0
  then show ?case by (simp add: write_ptrs_0)
next
  case (Suc k)
  then have "p < off + 9 + 2 * k \<or> off + 9 + 2 * k + 2 \<le> p" by auto
  then have "write_ptrs off ps (Suc k) b ! p = write_ptrs off ps k b ! p"
    by (simp only: write_ptrs_Suc nth_write_u16_other)
  also have "\<dots> = b ! p" using Suc by auto
  finally show ?case .
qed

lemma read_write_ptrs:
  "j < k \<Longrightarrow> off + 9 + 2 * k \<le> length b \<Longrightarrow>
   read_u16 (write_ptrs off ps k b) (off + 9 + 2 * j) = ps ! j"
proof (induction k)
  case 0
  then show ?case by simp
next
  case (Suc k)
  show ?case
  proof (cases "j = k")
    case True
    have "off + 9 + 2 * k + 1 < length (write_ptrs off ps k b)"
      using Suc.prems(2) by (simp add: length_write_ptrs)
    then show ?thesis
      by (simp only: write_ptrs_Suc True read_write_u16)
  next
    case False
    with Suc.prems have jk: "j < k" by simp
    have a: "write_ptrs off ps (Suc k) b ! (off + 9 + 2 * j) =
             write_ptrs off ps k b ! (off + 9 + 2 * j)"
      using jk by (simp only: write_ptrs_Suc) (rule nth_write_u16_other, simp)
    have b: "write_ptrs off ps (Suc k) b ! (off + 9 + 2 * j + 1) =
             write_ptrs off ps k b ! (off + 9 + 2 * j + 1)"
      using jk by (simp only: write_ptrs_Suc) (rule nth_write_u16_other, simp)
    have "read_u16 (write_ptrs off ps (Suc k) b) (off + 9 + 2 * j) =
          read_u16 (write_ptrs off ps k b) (off + 9 + 2 * j)"
      using a b by (rule read_u16_cong)
    also have "\<dots> = ps ! j" using Suc.IH jk Suc.prems(2) by simp
    finally show ?thesis .
  qed
qed

lemma encode_eq:
  "encode b off R =
     write_ptrs off (block_ptr R) INODE_PTR_COUNT
       (write_u8 (write_u8 (write_u8 (write_u16 (write_u32 b off (size_field R))
          (off + 4) (owner_id R)) (off + 6) (permissions R)) (off + 7) (flags R))
          (off + 8) (link_count R))"
  by (simp add: encode_def write_ptrs_def Let_def)

lemma length_encode: "length (encode b off R) = length b"
  by (simp add: encode_eq length_write_ptrs length_write_u8 length_write_u16 length_write_u32)

lemma encode_size:
  assumes "off + 41 \<le> length b"
  shows "read_u32 (encode b off R) off = size_field R"
proof -
  have "read_u32 (encode b off R) off = read_u32 (write_u32 b off (size_field R)) off"
    by (rule read_u32_cong)
      (simp_all add: encode_eq nth_write_ptrs_other nth_write_u8_other nth_write_u16_other)
  also have "\<dots> = size_field R" using assms by (simp add: read_write_u32)
  finally show ?thesis .
qed

lemma encode_owner:
  assumes "off + 41 \<le> length b"
  shows "read_u16 (encode b off R) (off + 4) = owner_id R"
proof -
  have "read_u16 (encode b off R) (off + 4) =
        read_u16 (write_u16 (write_u32 b off (size_field R)) (off + 4) (owner_id R)) (off + 4)"
    by (rule read_u16_cong)
      (simp_all add: encode_eq nth_write_ptrs_other nth_write_u8_other)
  also have "\<dots> = owner_id R" using assms by (simp add: read_write_u16 length_write_u32)
  finally show ?thesis .
qed

lemma encode_permissions:
  assumes "off + 41 \<le> length b"
  shows "read_u8 (encode b off R) (off + 6) = permissions R"
proof -
  have "read_u8 (encode b off R) (off + 6) =
        read_u8 (write_u8 (write_u16 (write_u32 b off (size_field R)) (off + 4) (owner_id R))
           (off + 6) (permissions R)) (off + 6)"
    by (rule read_u8_cong)
      (simp_all add: encode_eq nth_write_ptrs_other nth_write_u8_other)
  also have "\<dots> = permissions R"
    using assms by (simp add: read_write_u8 length_write_u32 length_write_u16)
  finally show ?thesis .
qed

lemma encode_flags:
  assumes "off + 41 \<le> length b"
  shows "read_u8 (encode b off R) (off + 7) = flags R"
proof -
  have "read_u8 (encode b off R) (off + 7) =
        read_u8 (write_u8 (write_u8 (write_u16 (write_u32 b off (size_field R)) (off + 4) (owner_id R))
           (off + 6) (permissions R)) (off + 7) (flags R)) (off + 7)"
    by (rule read_u8_cong)
      (simp_all add: encode_eq nth_write_ptrs_other nth_write_u8_other)
  also have "\<dots> = flags R"
    using assms by (simp add: read_write_u8 length_write_u32 length_write_u16 length_write_u8)
  finally show ?thesis .
qed

lemma encode_link_count:
  assumes "off + 41 \<le> length b"
  shows "read_u8 (encode b off R) (off + 8) = link_count R"
proof -
  have "read_u8 (encode b off R) (off + 8) =
        read_u8 (write_u8 (write_u8 (write_u8 (write_u16 (write_u32 b off (size_field R)) (off + 4) (owner_id R))
           (off + 6) (permissions R)) (off + 7) (flags R)) (off + 8) (link_count R)) (off + 8)"
    by (rule read_u8_cong)
      (simp_all add: encode_eq nth_write_ptrs_other)
  also have "\<dots> = link_count R"
    using assms by (simp add: read_write_u8 length_write_u32 length_write_u16 length_write_u8)
  finally show ?thesis .
qed

lemma encode_block_ptr:
  assumes "off + 41 \<le> length b" "length (block_ptr R) = INODE_PTR_COUNT"
  shows "map (\<lambda>i. read_u16 (encode b off R) (off + 9 + 2 * i)) [0..<INODE_PTR_COUNT] = block_ptr R"
proof (rule nth_equalityI)
  show "length (map (\<lambda>i. read_u16 (encode b off R) (off + 9 + 2 * i)) [0..<INODE_PTR_COUNT]) =
        length (block_ptr R)"
    using assms(2) by simp
next
  fix j assume "j < length (map (\<lambda>i. read_u16 (encode b off R) (off + 9 + 2 * i)) [0..<INODE_PTR_COUNT])"
  then have j: "j < INODE_PTR_COUNT" by simp
  have "off + 9 + 2 * INODE_PTR_COUNT \<le> length b"
    using assms(1) by (simp add: INODE_PTR_COUNT_def)
  then have "read_u16 (encode b off R) (off + 9 + 2 * j) = block_ptr R ! j"
    using j
    by (simp add: encode_eq read_write_ptrs length_write_u8 length_write_u16 length_write_u32)
  then show "map (\<lambda>i. read_u16 (encode b off R) (off + 9 + 2 * i)) [0..<INODE_PTR_COUNT] ! j =
        block_ptr R ! j"
    using j by simp
qed

lemma decode_encode:
  assumes "off + 41 \<le> length b" "length (block_ptr R) = INODE_PTR_COUNT"
  shows "decode (encode b off R) off R0 =
     R0\<lparr>size_field := size_field R, owner_id := owner_id R, permissions := permissions R,
        flags := flags R, link_count := link_count R, block_ptr := block_ptr R\<rparr>"
  by (simp only: decode_def encode_size [OF assms(1)] encode_owner [OF assms(1)]
      encode_permissions [OF assms(1)] encode_flags [OF assms(1)]
      encode_link_count [OF assms(1)] encode_block_ptr [OF assms])

text \<open>
  Claim C5. For an inode number \<open>n\<close> that is not negative, a block buffer and a record
  \<open>R\<close> with its 16 block pointers: decoding, at the offset that \<open>locate n\<close> gives, the
  buffer into which \<open>R\<close> was encoded at that offset yields the size, owner id,
  permissions, flags, link count and block pointers of \<open>R\<close>, and leaves the reference
  count and inode number of the record that is filled as they were. What \<open>encode\<close>
  writes does not depend on the reference count and the inode number of \<open>R\<close>.
\<close>

theorem encode_decode_round_trip:
  assumes "0 \<le> n" and "length block = BLOCK_SIZE"
    and "length (block_ptr R) = INODE_PTR_COUNT"
  shows "decode (encode block (nat (snd (locate n))) R) (nat (snd (locate n))) R0 =
      R0\<lparr>size_field := size_field R, owner_id := owner_id R, permissions := permissions R,
         flags := flags R, link_count := link_count R, block_ptr := block_ptr R\<rparr> \<and>
    encode block (nat (snd (locate n))) (R\<lparr>ref_count := r, inode_num := m\<rparr>) =
      encode block (nat (snd (locate n))) R \<and>
    length (encode block (nat (snd (locate n))) R) = BLOCK_SIZE"
proof -
  have "nat (snd (locate n)) + 41 \<le> length block"
    using locate_offset_bound [OF assms(1)] assms(2) by simp
  then have "decode (encode block (nat (snd (locate n))) R) (nat (snd (locate n))) R0 =
      R0\<lparr>size_field := size_field R, owner_id := owner_id R, permissions := permissions R,
         flags := flags R, link_count := link_count R, block_ptr := block_ptr R\<rparr>"
    using assms(3) by (rule decode_encode)
  moreover have "encode block (nat (snd (locate n))) (R\<lparr>ref_count := r, inode_num := m\<rparr>) =
      encode block (nat (snd (locate n))) R"
    by (simp add: encode_def)
  moreover have "length (encode block (nat (snd (locate n))) R) = BLOCK_SIZE"
    by (simp add: length_encode assms(2))
  ultimately show ?thesis by blast
qed

theorem encode_decode_round_trip_witness:
  "decode (encode zero_block (nat (snd (locate 70))) sample_inode) (nat (snd (locate 70)))
      blank_inode = sample_inode\<lparr>ref_count := 0, inode_num := 0\<rparr> \<and>
   encode zero_block (nat (snd (locate 70))) (sample_inode\<lparr>ref_count := 9, inode_num := 1\<rparr>) =
      encode zero_block (nat (snd (locate 70))) sample_inode"
proof -
  have n: "(0::int) \<le> 70" by simp
  have l: "length (block_ptr sample_inode) = INODE_PTR_COUNT"
    by (simp add: sample_inode_def INODE_PTR_COUNT_def)
  from encode_decode_round_trip
    [OF n length_zero_block l, where ?R0.0 = blank_inode and r = 9 and m = 1]
  show ?thesis by (simp add: sample_inode_def blank_inode_def)
qed

section \<open>Properties of iget and iput\<close>

lemma scan_incore_Some:
  "scan_incore P xs i = Some h \<Longrightarrow>
     i \<le> h \<and> h - i < length xs \<and> P (xs ! (h - i)) \<and> (\<forall>j<h - i. \<not> P (xs ! j))"
proof (induction xs arbitrary: i)
  case Nil
  then show ?case by simp
next
  case (Cons x xs)
  show ?case
  proof (cases "P x")
    case True
    with Cons.prems show ?thesis by simp
  next
    case False
    with Cons.prems have s: "scan_incore P xs (Suc i) = Some h" by simp
    from Cons.IH [OF s] have ih: "Suc i \<le> h" "h - Suc i < length xs" "P (xs ! (h - Suc i))"
      "\<forall>j<h - Suc i. \<not> P (xs ! j)" by blast+
    from ih(1) have e: "h - i = Suc (h - Suc i)" by arith
    have "\<forall>j<h - i. \<not> P ((x # xs) ! j)"
    proof (intro allI impI)
      fix j assume "j < h - i"
      then show "\<not> P ((x # xs) ! j)"
        using False ih(4) e by (cases j) auto
    qed
    with ih e show ?thesis by auto
  qed
qed

lemma scan_incore_None: "scan_incore P xs i = None \<longleftrightarrow> (\<forall>j<length xs. \<not> P (xs ! j))"
proof (induction xs arbitrary: i)
  case Nil
  then show ?case by simp
next
  case (Cons x xs)
  show ?case
  proof (cases "P x")
    case True
    then show ?thesis by auto
  next
    case False
    have "(\<forall>j<length (x # xs). \<not> P ((x # xs) ! j)) \<longleftrightarrow> (\<forall>j<length xs. \<not> P (xs ! j))"
      using False by (auto simp add: nth_Cons split: nat.splits)
    with False Cons.IH [of "Suc i"] show ?thesis by simp
  qed
qed

lemma scan_incore_first:
  "k < length xs \<Longrightarrow> P (xs ! k) \<Longrightarrow> \<forall>j<k. \<not> P (xs ! j) \<Longrightarrow> scan_incore P xs i = Some (i + k)"
proof (induction xs arbitrary: i k)
  case Nil
  then show ?case by simp
next
  case (Cons x xs)
  show ?case
  proof (cases k)
    case 0
    with Cons.prems show ?thesis by simp
  next
    case (Suc k')
    with Cons.prems have nx: "\<not> P x" by auto
    have "scan_incore P xs (Suc i) = Some (Suc i + k')"
    proof (rule Cons.IH)
      show "k' < length xs" using Cons.prems(1) Suc by simp
      show "P (xs ! k')" using Cons.prems(2) Suc by simp
      show "\<forall>j<k'. \<not> P (xs ! j)" using Cons.prems(3) Suc by auto
    qed
    with nx Suc show ?thesis by simp
  qed
qed

lemma read_inode_incore: "incore (snd (read_inode buf ino n w)) = incore w"
  by (simp add: read_inode_def bread_def lseek_def sys_read_def Let_def split: prod.splits)

lemma read_inode_image_bytes: "image_bytes (snd (read_inode buf ino n w)) = image_bytes w"
  by (simp add: read_inode_def bread_def lseek_def sys_read_def Let_def split: prod.splits)

lemma iget_miss:
  assumes "find_incore w (word_of_int n) = None" "find_incore_free w = Some h"
  shows "fst (iget buf n w) = Some h \<and>
     incore (snd (iget buf n w)) =
       (incore w)[h := (fst (read_inode buf (incore w ! h) n w))
                        \<lparr>ref_count := 1, inode_num := word_of_int n\<rparr>] \<and>
     image_bytes (snd (iget buf n w)) = image_bytes w"
  using assms read_inode_incore [of buf "incore w ! h" n w]
    read_inode_image_bytes [of buf "incore w ! h" n w]
  by (simp add: iget_def Let_def split_beta)

lemma iget_hit:
  assumes "find_incore w (word_of_int n) = Some h"
  shows "iget buf n w =
     (Some h, w\<lparr>incore := (incore w)[h := (incore w ! h)\<lparr>ref_count := ref_count (incore w ! h) + 1\<rparr>]\<rparr>)"
  using assms by (simp add: iget_def)

text \<open>
  Claim C6, as amended. When inode \<open>n\<close> is not in core and a slot is free, two calls
  of \<^verbatim>\<open>iget\<close> for \<open>n\<close> in a row return the same slot, the free one that the first
  call took; afterwards the reference count of that slot is 2 and it holds \<open>n\<close>; and
  the second call issues no system call and leaves the image and the file position as
  they were. The first call changes slot \<open>h\<close> of the in-core array only, to what
  \<^verbatim>\<open>read_inode\<close> loaded with reference count 1 and inode number \<open>n\<close>, and leaves the
  bytes of the image alone. The second call is a cache hit that increments the
  reference count only: the state after it is the state before it with the reference
  count of slot \<open>h\<close> set to 2, every other field of that slot, every other slot and the
  rest of the state being what they were.
\<close>

theorem iget_twice:
  assumes "find_incore w (word_of_int n) = None" and "find_incore_free w = Some h"
  shows "fst (iget buf n w) = Some h \<and>
    fst (iget buf' n (snd (iget buf n w))) = Some h \<and>
    ref_count (incore (snd (iget buf' n (snd (iget buf n w)))) ! h) = 2 \<and>
    inode_num (incore (snd (iget buf' n (snd (iget buf n w)))) ! h) = word_of_int n \<and>
    calls_since (snd (iget buf n w)) (snd (iget buf' n (snd (iget buf n w)))) = [] \<and>
    image_bytes (snd (iget buf' n (snd (iget buf n w)))) = image_bytes (snd (iget buf n w)) \<and>
    image_pos (snd (iget buf' n (snd (iget buf n w)))) = image_pos (snd (iget buf n w)) \<and>
    iget buf' n (snd (iget buf n w)) =
      (Some h,
       (snd (iget buf n w))\<lparr>incore := (incore (snd (iget buf n w)))
          [h := (incore (snd (iget buf n w)) ! h)\<lparr>ref_count := 2\<rparr>]\<rparr>) \<and>
    h < length (incore w) \<and>
    ref_count (incore (snd (iget buf n w)) ! h) = 1 \<and>
    incore (snd (iget buf n w)) =
      (incore w)[h := (fst (read_inode buf (incore w ! h) n w))
                       \<lparr>ref_count := 1, inode_num := word_of_int n\<rparr>] \<and>
    image_bytes (snd (iget buf n w)) = image_bytes w"
proof -
  let ?w1 = "snd (iget buf n w)"
  let ?new = "(fst (read_inode buf (incore w ! h) n w))\<lparr>ref_count := 1, inode_num := word_of_int n\<rparr>"
  note m = iget_miss [OF assms, of buf]
  from m have r1: "fst (iget buf n w) = Some h" by blast
  from m have c1: "incore ?w1 = (incore w)[h := ?new]" by blast
  from assms(2) have hl: "h < length (incore w)"
    using scan_incore_Some [of "\<lambda>ino. ref_count ino = 0" "incore w" 0 h]
    by (simp add: find_incore_free_def)
  from assms(1) have none: "\<forall>j<length (incore w).
      \<not> (ref_count (incore w ! j) \<noteq> 0 \<and> inode_num (incore w ! j) = word_of_int n)"
    by (simp add: find_incore_def scan_incore_None)
  have hit: "find_incore ?w1 (word_of_int n) = Some h"
  proof -
    have "scan_incore (\<lambda>ino. ref_count ino \<noteq> 0 \<and> inode_num ino = word_of_int n)
            ((incore w)[h := ?new]) 0 = Some (0 + h)"
    proof (rule scan_incore_first)
      show "h < length ((incore w)[h := ?new])" using hl by simp
      show "ref_count ((incore w)[h := ?new] ! h) \<noteq> 0 \<and>
            inode_num ((incore w)[h := ?new] ! h) = word_of_int n"
        using hl by simp
      show "\<forall>j<h. \<not> (ref_count ((incore w)[h := ?new] ! j) \<noteq> 0 \<and>
            inode_num ((incore w)[h := ?new] ! j) = word_of_int n)"
        using none hl by simp
    qed
    then show ?thesis by (simp add: find_incore_def c1)
  qed
  have e2: "iget buf' n ?w1 =
     (Some h, ?w1\<lparr>incore := (incore ?w1)[h := (incore ?w1 ! h)\<lparr>ref_count := ref_count (incore ?w1 ! h) + 1\<rparr>]\<rparr>)"
    using hit by (rule iget_hit)
  have rc: "ref_count (incore ?w1 ! h) = 1" "inode_num (incore ?w1 ! h) = word_of_int n"
    using hl by (simp_all add: c1)
  have hl1: "h < length (incore ?w1)" using hl by (simp add: c1)
  from m have b1: "image_bytes ?w1 = image_bytes w" by blast
  have e2': "iget buf' n ?w1 =
     (Some h, ?w1\<lparr>incore := (incore ?w1)[h := (incore ?w1 ! h)\<lparr>ref_count := 2\<rparr>]\<rparr>)"
    by (simp add: e2 rc(1))
  have old: "fst (iget buf n w) = Some h \<and>
    fst (iget buf' n ?w1) = Some h \<and>
    ref_count (incore (snd (iget buf' n ?w1)) ! h) = 2 \<and>
    inode_num (incore (snd (iget buf' n ?w1)) ! h) = word_of_int n \<and>
    calls_since ?w1 (snd (iget buf' n ?w1)) = [] \<and>
    image_bytes (snd (iget buf' n ?w1)) = image_bytes ?w1 \<and>
    image_pos (snd (iget buf' n ?w1)) = image_pos ?w1"
    using r1 rc hl1 by (simp add: e2 calls_since_def)
  from old e2' hl rc(1) c1 b1 show ?thesis by blast
qed

lemma word32_of_nat_neq:
  assumes "j < 64"
  shows "(of_nat j :: 32 word) \<noteq> 64"
proof
  assume "(of_nat j :: 32 word) = 64"
  then have "unat (of_nat j :: 32 word) = unat (64 :: 32 word)" by simp
  moreover have "unat (of_nat j :: 32 word) = j"
    using assms by (simp add: unat_of_nat)
  ultimately show False using assms by simp
qed

theorem iget_twice_witness:
  "fst (iget zero_block 5 fresh_cache) = Some 0 \<and>
   fst (iget zero_block 5 (snd (iget zero_block 5 fresh_cache))) = Some 0 \<and>
   ref_count (incore (snd (iget zero_block 5 (snd (iget zero_block 5 fresh_cache)))) ! 0) = 2 \<and>
   calls_since (snd (iget zero_block 5 fresh_cache))
     (snd (iget zero_block 5 (snd (iget zero_block 5 fresh_cache)))) = []"
proof -
  have a: "find_incore fresh_cache (word_of_int 5) = None"
    by (simp add: find_incore_def scan_incore_None fresh_cache_def blank_inode_def)
  have "scan_incore (\<lambda>ino. ref_count ino = 0) (incore fresh_cache) 0 = Some (0 + 0)"
    by (rule scan_incore_first)
      (simp_all add: fresh_cache_def blank_inode_def MAX_SYS_OPEN_FILES_def)
  then have b: "find_incore_free fresh_cache = Some 0"
    by (simp add: find_incore_free_def)
  from iget_twice [OF a b, of zero_block zero_block] show ?thesis by blast
qed

text \<open>
  Claim C6 as stated fails. With inode 5 already held once in slot 0, two calls of
  \<^verbatim>\<open>iget\<close> for 5 return slot 0 both times and leave its reference count at 3, not
  2. With every slot held by another inode, \<^verbatim>\<open>iget\<close> for inode 64 returns no slot
  at all, twice.
\<close>

theorem iget_twice_counterexample:
  "fst (iget zero_block 5 held_cache) = Some 0 \<and>
   fst (iget zero_block 5 (snd (iget zero_block 5 held_cache))) = Some 0 \<and>
   ref_count (incore (snd (iget zero_block 5 (snd (iget zero_block 5 held_cache)))) ! 0) = 3 \<and>
   fst (iget zero_block 64 full_cache) = None \<and>
   fst (iget zero_block 64 (snd (iget zero_block 64 full_cache))) = None"
proof -
  have held: "fst (iget zero_block 5 held_cache) = Some 0 \<and>
   fst (iget zero_block 5 (snd (iget zero_block 5 held_cache))) = Some 0 \<and>
   ref_count (incore (snd (iget zero_block 5 (snd (iget zero_block 5 held_cache)))) ! 0) = 3"
    by (simp add: iget_def find_incore_def held_cache_def blank_inode_def)
  have a: "find_incore full_cache 64 = None"
    by (simp add: find_incore_def scan_incore_None full_cache_def word32_of_nat_neq
        MAX_SYS_OPEN_FILES_def)
  have b: "find_incore_free full_cache = None"
    by (simp add: find_incore_free_def scan_incore_None full_cache_def)
  have "iget zero_block 64 full_cache = (None, full_cache)"
    by (simp add: iget_def a b)
  with held show ?thesis by simp
qed

text \<open>
  Claim C7. \<^verbatim>\<open>iput\<close> on a slot whose reference count is 0 changes nothing: the state
  it returns is the state it was given (so the count is still 0 and nothing was written)
  and no system call was issued; there is no error to raise.
\<close>

theorem iput_free_slot_noop:
  assumes "h < length (incore w)" and "ref_count (incore w ! h) = 0"
  shows "iput buf h w = w \<and> ref_count (incore (iput buf h w) ! h) = 0 \<and>
    calls_since w (iput buf h w) = []"
  using assms by (simp add: iput_def calls_since_def)

theorem iput_free_slot_noop_witness:
  "iput zero_block 1 held_cache = held_cache \<and>
   calls_since held_cache (iput zero_block 1 held_cache) = []"
proof -
  have a: "1 < length (incore held_cache)"
    by (simp add: held_cache_def MAX_SYS_OPEN_FILES_def)
  have b: "ref_count (incore held_cache ! 1) = 0"
    by (simp add: held_cache_def blank_inode_def MAX_SYS_OPEN_FILES_def)
  from iput_free_slot_noop [OF a b, of zero_block] show ?thesis by blast
qed

end
